theory Spec2Isabelle
  imports Main "HOL-Library.Multiset"
begin

section \<open>Modelling conventions\<close>

text \<open>
  The planner is a single TypeScript file (\<^verbatim>\<open>src/index.tsx\<close>). Its core is a handful of
  pure helpers (the duration and wall-clock codec), the cascade
  \<^verbatim>\<open>recalculateTimesInList\<close>, the list handlers of the \<^verbatim>\<open>App\<close> component and the
  one-second timer callback. They are embedded here as HOL functions.

  \<^item> A JavaScript string is a \<^typ>\<open>string\<close>; every \<^typ>\<open>char\<close> stands for one UTF-16 code
    unit below 256.
  \<^item> A JavaScript \<^verbatim>\<open>number\<close> that holds an integer is an \<^typ>\<open>int\<close>. JavaScript numbers are
    double-precision floats, exact on integers up to \<open>2 ^ 53\<close> in magnitude, and a \<^verbatim>\<open>Date\<close>
    spans about \<open>8.64 * 10 ^ 15\<close> milliseconds either side of 1970. The model computes with
    unbounded integers, so it agrees with the code as long as the values stay in that
    range: clock fields, and durations up to some hundred thousand years. Numbers that
    are not integers (fractions, exponent notation, \<^verbatim>\<open>Infinity\<close>) are not computed with:
    where one arises, the model answers with an explicit "untracked" value instead of
    inventing a result.
  \<^item> A \<^verbatim>\<open>Date\<close> is the number of seconds between the local midnight of the current day
    and the instant it denotes (all dates built by the code have zero milliseconds,
    and the clock read by \<^verbatim>\<open>new Date()\<close> is only ever formatted to whole seconds).
    The local time zone is taken to have a fixed offset over the days involved.
  \<^item> React state is passed explicitly: a handler takes the list collection and the
    active timer and returns the new ones, together with the sounds it asked for.
\<close>

section \<open>JavaScript string and number primitives\<close>

text \<open>White space as \<^verbatim>\<open>String.prototype.trim\<close> and \<^verbatim>\<open>Number\<close> see it (code units below 256):
  TAB, LF, VT, FF, CR, SPACE and NBSP.\<close>

definition is_js_space :: "char \<Rightarrow> bool" where
  "is_js_space c = (c \<in> set [CHR 0x09, CHR 0x0A, CHR 0x0B, CHR 0x0C, CHR 0x0D, CHR 0x20, CHR 0xA0])"

definition js_trim :: "string \<Rightarrow> string" where
  "js_trim s = rev (dropWhile is_js_space (rev (dropWhile is_js_space s)))"

definition is_digit :: "char \<Rightarrow> bool" where
  "is_digit c = (c \<in> set ''0123456789'')"

definition digit_val :: "char \<Rightarrow> nat" where
  "digit_val c = (of_char c :: nat) - 48"

definition digit_char :: "nat \<Rightarrow> char" where
  "digit_char d = ''0123456789'' ! d"

text \<open>The value of a run of decimal digits.\<close>

definition dec_value :: "string \<Rightarrow> nat" where
  "dec_value ds = foldl (\<lambda>a c. 10 * a + digit_val c) 0 ds"

text \<open>\<^verbatim>\<open>n.toString()\<close> and \<^verbatim>\<open>String(n)\<close> for an integer \<open>n\<close>: the decimal digits, with a
  leading minus sign when negative.\<close>

fun nat_toString :: "nat \<Rightarrow> string" where
  "nat_toString n =
     (if n < 10 then [digit_char n] else nat_toString (n div 10) @ [digit_char (n mod 10)])"

declare nat_toString.simps [simp del]

definition js_String :: "int \<Rightarrow> string" where
  "js_String n = (if n < 0 then CHR ''-'' # nat_toString (nat (- n)) else nat_toString (nat n))"

text \<open>\<^verbatim>\<open>s.padStart(n, c)\<close> for a one-character filler.\<close>

definition padStart :: "nat \<Rightarrow> char \<Rightarrow> string \<Rightarrow> string" where
  "padStart n c s = replicate (n - length s) c @ s"

text \<open>\<^verbatim>\<open>s.split(':')\<close>: the pieces between the colons; a string without a colon (the empty
  string too) is one piece.\<close>

fun split_colon :: "string \<Rightarrow> string list" where
  "split_colon [] = [[]]"
| "split_colon (c # cs) =
     (if c = CHR '':'' then [] # split_colon cs
      else (c # hd (split_colon cs)) # tl (split_colon cs))"

text \<open>The result of \<^verbatim>\<open>Number(s)\<close>. \<open>Num n\<close> is the integer \<open>n\<close>; \<open>Untracked\<close> is a number
  that is not \<^verbatim>\<open>NaN\<close> and whose value the integer model does not follow (a literal with a
  non-zero fraction or an exponent, or \<^verbatim>\<open>Infinity\<close>).\<close>

datatype jsnum = NaN | Num int | Untracked

fun js_neg :: "jsnum \<Rightarrow> jsnum" where
  "js_neg NaN = NaN"
| "js_neg (Num n) = Num (- n)"
| "js_neg Untracked = Untracked"

text \<open>The grammar of \<^verbatim>\<open>StringNumericLiteral\<close> (ECMA-262, 7.1.4.1). A mantissa is
  \<^verbatim>\<open>digits\<close>, \<^verbatim>\<open>digits.digits?\<close> or \<^verbatim>\<open>.digits\<close>; it is an integer when it has no
  fraction digit other than zero.\<close>

definition mantissa :: "string \<Rightarrow> jsnum" where
  "mantissa m =
     (let ip = takeWhile (\<lambda>c. c \<noteq> CHR ''.'') m;
          rest = dropWhile (\<lambda>c. c \<noteq> CHR ''.'') m
      in if rest = [] then
           (if ip \<noteq> [] \<and> list_all is_digit ip then Num (int (dec_value ip)) else NaN)
         else
           (let fp = tl rest
            in if list_all is_digit ip \<and> list_all is_digit fp \<and> (ip \<noteq> [] \<or> fp \<noteq> []) then
                 (if list_all (\<lambda>c. c = CHR ''0'') fp then Num (int (dec_value ip)) else Untracked)
               else NaN))"

text \<open>What follows the exponent indicator: digits with an optional sign.\<close>

definition is_exponent :: "string \<Rightarrow> bool" where
  "is_exponent e =
     (case e of
        [] \<Rightarrow> False
      | c # r \<Rightarrow> if c = CHR ''+'' \<or> c = CHR ''-'' then r \<noteq> [] \<and> list_all is_digit r
                 else list_all is_digit e)"

definition unsigned_decimal :: "string \<Rightarrow> jsnum" where
  "unsigned_decimal u =
     (if u = ''Infinity'' then Untracked
      else
        (let m = takeWhile (\<lambda>c. c \<noteq> CHR ''e'' \<and> c \<noteq> CHR ''E'') u;
             rest = dropWhile (\<lambda>c. c \<noteq> CHR ''e'' \<and> c \<noteq> CHR ''E'') u
         in if rest = [] then mantissa m
            else if is_exponent (tl rest) then (case mantissa m of NaN \<Rightarrow> NaN | _ \<Rightarrow> Untracked)
            else NaN))"

text \<open>Hexadecimal, octal and binary literals (\<^verbatim>\<open>0x1F\<close>, \<^verbatim>\<open>0o17\<close>, \<^verbatim>\<open>0b101\<close>) take no sign.\<close>

definition radix_digit :: "char \<Rightarrow> nat option" where
  "radix_digit c =
     (if is_digit c then Some (digit_val c)
      else if c \<in> set ''abcdef'' then Some ((of_char c :: nat) - 87)
      else if c \<in> set ''ABCDEF'' then Some ((of_char c :: nat) - 55)
      else None)"

fun radix_value :: "nat \<Rightarrow> nat \<Rightarrow> string \<Rightarrow> nat option" where
  "radix_value b acc [] = Some acc"
| "radix_value b acc (c # cs) =
     (case radix_digit c of
        None \<Rightarrow> None
      | Some d \<Rightarrow> if d < b then radix_value b (b * acc + d) cs else None)"

definition radix_literal :: "string \<Rightarrow> nat option" where
  "radix_literal t =
     (case t of
        z # p # d # ds \<Rightarrow>
          if z \<noteq> CHR ''0'' then None
          else if p = CHR ''x'' \<or> p = CHR ''X'' then radix_value 16 0 (d # ds)
          else if p = CHR ''o'' \<or> p = CHR ''O'' then radix_value 8 0 (d # ds)
          else if p = CHR ''b'' \<or> p = CHR ''B'' then radix_value 2 0 (d # ds)
          else None
      | _ \<Rightarrow> None)"

definition js_Number :: "string \<Rightarrow> jsnum" where
  "js_Number s =
     (let t = js_trim s
      in case t of
           [] \<Rightarrow> Num 0
         | c # r \<Rightarrow>
             (case radix_literal t of
                Some v \<Rightarrow> Num (int v)
              | None \<Rightarrow>
                  if c = CHR ''-'' then js_neg (unsigned_decimal r)
                  else if c = CHR ''+'' then unsigned_decimal r
                  else unsigned_decimal t))"

section \<open>Duration and countdown codec\<close>

text \<open>The outcome of \<^verbatim>\<open>parseDurationToSeconds\<close>: \<^verbatim>\<open>null\<close>, a whole number of seconds, or a
  value that the integer model does not follow (see \<^typ>\<open>jsnum\<close>).\<close>

datatype duration = Null | Seconds int | UntrackedDuration

text \<open>Lines 60 to 68 of the source: the colon-separated form.\<close>

definition parseColonForm :: "string \<Rightarrow> duration" where
  "parseColonForm input =
     (let parts = map js_Number (split_colon input)
      in if list_ex (\<lambda>p. p = NaN) parts then Null
         else if length parts = 2 then
           (case parts of
              [Num a, Num b] \<Rightarrow> Seconds (max 0 (a * 60 + b))
            | _ \<Rightarrow> UntrackedDuration)
         else if length parts = 3 then
           (case parts of
              [Num a, Num b, Num c] \<Rightarrow> Seconds (max 0 (a * 3600 + b * 60 + c))
            | _ \<Rightarrow> UntrackedDuration)
         else Null)"

text \<open>An untracked \<^verbatim>\<open>Number(input)\<close> either passes the test
  \<^verbatim>\<open>String(numberInput) === input.trim()\<close> and is returned times sixty, or fails it and,
  being a single part, gives \<^verbatim>\<open>null\<close>; the model does not decide which.\<close>

definition parseDurationToSeconds :: "string \<Rightarrow> duration" where
  "parseDurationToSeconds input =
     (if input = [] \<or> js_trim input = [] then Null
      else
        (case js_Number input of
           Untracked \<Rightarrow> UntrackedDuration
         | Num numberInput \<Rightarrow>
             if js_String numberInput = js_trim input then Seconds (max 0 (numberInput * 60))
             else parseColonForm input
         | NaN \<Rightarrow> parseColonForm input))"

definition formatDuration :: "int \<Rightarrow> string" where
  "formatDuration totalSeconds0 =
     (let totalSeconds = (if totalSeconds0 < 0 then 0 else totalSeconds0);
          h = totalSeconds div 3600;
          m = (totalSeconds mod 3600) div 60;
          s = totalSeconds mod 60
      in if h > 0 then
           padStart 2 CHR ''0'' (js_String h) @ '':'' @ padStart 2 CHR ''0'' (js_String m) @ '':''
             @ padStart 2 CHR ''0'' (js_String s)
         else if m > 0 then
           padStart 2 CHR ''0'' (js_String m) @ '':'' @ padStart 2 CHR ''0'' (js_String s)
         else js_String s @ ''s'')"

definition formatTimeLeft :: "int \<Rightarrow> string" where
  "formatTimeLeft totalSeconds0 =
     (let totalSeconds = (if totalSeconds0 < 0 then 0 else totalSeconds0);
          hours = totalSeconds div 3600;
          minutes = (totalSeconds mod 3600) div 60;
          seconds = totalSeconds mod 60
      in if hours > 0 then
           padStart 2 CHR ''0'' (js_String hours) @ '':'' @ padStart 2 CHR ''0'' (js_String minutes)
             @ '':'' @ padStart 2 CHR ''0'' (js_String seconds)
         else
           padStart 2 CHR ''0'' (js_String minutes) @ '':'' @ padStart 2 CHR ''0'' (js_String seconds))"

section \<open>Wall-clock times\<close>

text \<open>\<^verbatim>\<open>parts[k] || 0\<close>: a missing part, \<^verbatim>\<open>NaN\<close> and zero all give zero. \<open>None\<close> says that
  the part is an untracked number.\<close>

definition part_or_zero :: "jsnum list \<Rightarrow> nat \<Rightarrow> int option" where
  "part_or_zero parts k =
     (if k < length parts then
        (case parts ! k of NaN \<Rightarrow> Some 0 | Num n \<Rightarrow> Some n | Untracked \<Rightarrow> None)
      else Some 0)"

text \<open>\<^verbatim>\<open>date.setHours(hours, minutes, seconds, 0)\<close> on today's date: fields out of their
  usual range carry over, so the date is linear in the three fields.\<close>

definition parseTimeToDate :: "string \<Rightarrow> int option" where
  "parseTimeToDate timeStr =
     (let parts = map js_Number (split_colon timeStr)
      in case (part_or_zero parts 0, part_or_zero parts 1, part_or_zero parts 2) of
           (Some hours, Some minutes, Some seconds) \<Rightarrow> Some (hours * 3600 + minutes * 60 + seconds)
         | _ \<Rightarrow> None)"

definition formatTimeFromDate :: "int \<Rightarrow> string" where
  "formatTimeFromDate date =
     (let tod = date mod 86400;
          hours = padStart 2 CHR ''0'' (js_String (tod div 3600));
          minutes = padStart 2 CHR ''0'' (js_String ((tod mod 3600) div 60));
          seconds = padStart 2 CHR ''0'' (js_String (tod mod 60))
      in hours @ '':'' @ minutes @ '':'' @ seconds)"

definition addSecondsToDate :: "int \<Rightarrow> int \<Rightarrow> int" where
  "addSecondsToDate date seconds = date + seconds"

section \<open>Data model\<close>

text \<open>The fields \<^verbatim>\<open>id\<close> and \<^verbatim>\<open>name\<close> of the source are \<open>routine_id\<close>, \<open>routine_name\<close> and
  \<open>list_id\<close> here.\<close>

record Routine =
  routine_id :: string
  routine_name :: string
  startTime :: string
  durationSeconds :: int
  endTime :: string

record RoutineList =
  list_id :: string
  title :: string
  routines :: "Routine list"

record ActiveRoutineState =
  listId :: string
  routineId :: string
  currentRoutineIndex :: nat
  timeLeftInSeconds :: int
  routineName :: string

text \<open>What the handlers ask the audio layer for, in the order of the calls. The German
  sentences are fixed by the source; only their parameters are kept.
  \<^item> \<open>RoutineDone n\<close>: a beep whose callback speaks "\<open>n\<close> ist fertig.";
  \<^item> \<open>AllDone t\<close>: the sentence that all routines of the list titled \<open>t\<close> are finished;
  \<^item> \<open>StoppedRoutineDeleted\<close>: a beep, then "Timer gestoppt, ..." because the active or the
    only routine was deleted;
  \<^item> \<open>StoppedByChanges\<close>: a beep, then "Timer gestoppt aufgrund von ..." (restart asked);
  \<^item> \<open>NothingToStart t\<close>: a beep, then the sentence that the list titled \<open>t\<close> has no
    routines to start.
  When the sounds are actually heard is outside the model.\<close>

datatype sound =
    RoutineDone string | AllDone string | StoppedRoutineDeleted | StoppedByChanges
  | NothingToStart string

section \<open>Cascade recalculation\<close>

text \<open>The start of routine \<open>i\<close> inside the loop of \<^verbatim>\<open>recalculateTimesInList\<close>: its own start
  time at index 0, else the end time of its predecessor, else (that end time being the
  empty string) the current time \<open>now\<close>.\<close>

definition cascadeStart :: "int \<Rightarrow> Routine list \<Rightarrow> nat \<Rightarrow> int option" where
  "cascadeStart now updatedRoutines i =
     (if i = 0 then parseTimeToDate (startTime (updatedRoutines ! i))
      else if endTime (updatedRoutines ! (i - 1)) = [] then Some now
      else parseTimeToDate (endTime (updatedRoutines ! (i - 1))))"




section \<open>Adding a routine\<close>

text \<open>The branch of \<^verbatim>\<open>handleAddRoutineToList\<close> for the list whose id matches. \<open>newId\<close> is
  what \<^verbatim>\<open>generateId()\<close> returns. An absent argument is \<open>None\<close>; the test
  \<^verbatim>\<open>if (startTimeStr)\<close> also fails on the empty string.\<close>

definition addRoutineToList ::
  "string \<Rightarrow> string \<Rightarrow> int \<Rightarrow> string option \<Rightarrow> RoutineList \<Rightarrow> RoutineList option" where
  "addRoutineToList newId name durationSeconds' startTimeStr list =
     (let newRoutineStartTimeStr =
            (if startTimeStr \<noteq> None \<and> startTimeStr \<noteq> Some [] then the startTimeStr @ '':00''
             else if routines list \<noteq> [] then endTime (last (routines list))
             else ''08:00:00'')
      in case parseTimeToDate newRoutineStartTimeStr of
           None \<Rightarrow> None
         | Some d \<Rightarrow>
             Some (list\<lparr>routines := routines list @
               [\<lparr>routine_id = newId, routine_name = name, startTime = newRoutineStartTimeStr,
                 durationSeconds = durationSeconds',
                 endTime = formatTimeFromDate (addSecondsToDate d durationSeconds')\<rparr>]\<rparr>))"

definition handleAddRoutineToList ::
  "string \<Rightarrow> RoutineList list \<Rightarrow> string \<Rightarrow> string \<Rightarrow> int \<Rightarrow> string option
     \<Rightarrow> RoutineList list option" where
  "handleAddRoutineToList newId prevLists listId' name durationSeconds' startTimeStr =
     those (map (\<lambda>list. if list_id list = listId'
                         then addRoutineToList newId name durationSeconds' startTimeStr list
                         else Some list) prevLists)"

text \<open>The form handler \<^verbatim>\<open>handleSubmitNewRoutine\<close> of the list component showing \<open>list\<close>;
  \<^verbatim>\<open>onAddRoutine\<close> is bound to \<^verbatim>\<open>handleAddRoutineToList\<close>. \<open>Alert\<close> is the rejection of the
  input (nothing changes), \<open>Applied\<close> carries the new collection.\<close>

datatype submitted = Alert | Applied "RoutineList list" | UntrackedInput

definition handleSubmitNewRoutine ::
  "string \<Rightarrow> RoutineList list \<Rightarrow> RoutineList \<Rightarrow> string \<Rightarrow> string \<Rightarrow> string \<Rightarrow> submitted" where
  "handleSubmitNewRoutine newId prevLists list newRoutineName newRoutineDurationInput
       newRoutineStartTime =
     (if js_trim newRoutineName = [] then Alert
      else
        (case parseDurationToSeconds newRoutineDurationInput of
           Null \<Rightarrow> Alert
         | UntrackedDuration \<Rightarrow> UntrackedInput
         | Seconds durationSec \<Rightarrow>
             if durationSec \<le> 0 then Alert
             else
               (let isFirstRoutine = (routines list = [])
                in case handleAddRoutineToList newId prevLists (list_id list) newRoutineName
                          durationSec (if isFirstRoutine then Some newRoutineStartTime else None) of
                     None \<Rightarrow> UntrackedInput
                   | Some newLists \<Rightarrow> Applied newLists)))"

section \<open>The timer tick\<close>

text \<open>The state updater run by the one-second interval; \<open>lists'\<close> is the collection the
  effect closed over.\<close>

definition tick ::
  "RoutineList list \<Rightarrow> ActiveRoutineState option \<Rightarrow> ActiveRoutineState option \<times> sound list" where
  "tick lists' prev' =
     (case prev' of
        None \<Rightarrow> (None, [])
      | Some prev \<Rightarrow>
          if timeLeftInSeconds prev \<le> 1 then
            (case find (\<lambda>l. list_id l = listId prev) lists' of
               None \<Rightarrow> (None, [RoutineDone (routineName prev)])
             | Some currentList \<Rightarrow>
                 (let nextRoutineIndex = currentRoutineIndex prev + 1
                  in if nextRoutineIndex < length (routines currentList) then
                       (let nextRoutine = routines currentList ! nextRoutineIndex
                        in (Some \<lparr>listId = listId prev, routineId = routine_id nextRoutine,
                                   currentRoutineIndex = nextRoutineIndex,
                                   timeLeftInSeconds = durationSeconds nextRoutine,
                                   routineName = routine_name nextRoutine\<rparr>,
                            [RoutineDone (routineName prev)]))
                     else (None, [RoutineDone (routineName prev), AllDone (title currentList)])))
          else (Some (prev\<lparr>timeLeftInSeconds := timeLeftInSeconds prev - 1\<rparr>), []))"

text \<open>\<^verbatim>\<open>handleToggleStartStopList\<close>: stop the timer of this list, or start the list at its first
  routine (replacing a timer that runs on another list).\<close>

definition handleToggleStartStopList ::
  "RoutineList list \<Rightarrow> ActiveRoutineState option \<Rightarrow> string
     \<Rightarrow> ActiveRoutineState option \<times> sound list" where
  "handleToggleStartStopList lists' active listId' =
     (if map_option listId active = Some listId' then (None, [])
      else
        (case find (\<lambda>l. list_id l = listId') lists' of
           None \<Rightarrow> (None, [])
         | Some targetList \<Rightarrow>
             if routines targetList \<noteq> [] then
               (let firstRoutine = routines targetList ! 0
                in (Some \<lparr>listId = listId', routineId = routine_id firstRoutine,
                           currentRoutineIndex = 0,
                           timeLeftInSeconds = durationSeconds firstRoutine,
                           routineName = routine_name firstRoutine\<rparr>, []))
             else (None, [NothingToStart (title targetList)])))"

section \<open>Deleting a routine\<close>





section \<open>Moving a list\<close>

text \<open>The position at which \<^verbatim>\<open>Array.prototype.splice(start, ...)\<close> works on an array of
  length \<open>len\<close>: a negative start counts from the end, and the result is clamped to
  \<open>0 .. len\<close>.\<close>

definition spliceStart :: "int \<Rightarrow> nat \<Rightarrow> nat" where
  "spliceStart start len = (if start < 0 then nat (max (int len + start) 0) else min (nat start) len)"

text \<open>\<^verbatim>\<open>handleMoveList\<close> calls \<^verbatim>\<open>setLists\<close> only; the timer state is passed along to make
  that visible.\<close>

definition handleMoveList ::
  "RoutineList list \<times> ActiveRoutineState option \<Rightarrow> int \<Rightarrow> int
     \<Rightarrow> RoutineList list \<times> ActiveRoutineState option" where
  "handleMoveList app sourceIndex targetIndexInContainer =
     (let prevLists = fst app;
          k = spliceStart sourceIndex (length prevLists)
      in if k < length prevLists then
           (let movedList = prevLists ! k;
                newLists = take k prevLists @ drop (Suc k) prevLists;
                actualTargetIndex =
                  (if sourceIndex < targetIndexInContainer then targetIndexInContainer - 1
                   else targetIndexInContainer);
                j = spliceStart actualTargetIndex (length newLists)
            in (take j newLists @ [movedList] @ drop j newLists, snd app))
         else (prevLists, snd app))"

section \<open>Vocabulary for the cascade\<close>




section \<open>Vocabulary for the timer\<close>


text \<open>The interval calls the updater once a second: \<open>ticks n\<close> is \<open>n\<close> such calls in a row, the
  collection staying as it is, with the sounds in the order of their emission.\<close>

fun ticks :: "nat \<Rightarrow> RoutineList list \<Rightarrow> ActiveRoutineState option
    \<Rightarrow> ActiveRoutineState option \<times> sound list" where
  "ticks 0 ls a = (a, [])"
| "ticks (Suc n) ls a =
     (case tick ls a of (a1, sounds1) \<Rightarrow>
        (case ticks n ls a1 of (a2, sounds2) \<Rightarrow> (a2, sounds1 @ sounds2)))"

text \<open>The timer state in which routine \<open>i\<close> of a list begins, and the number of ticks until
  a routine that has just begun is complete (one tick for a duration below one second).\<close>

definition timerAt :: "RoutineList \<Rightarrow> nat \<Rightarrow> ActiveRoutineState" where
  "timerAt currentList i =
     \<lparr>listId = list_id currentList, routineId = routine_id (routines currentList ! i),
      currentRoutineIndex = i, timeLeftInSeconds = durationSeconds (routines currentList ! i),
      routineName = routine_name (routines currentList ! i)\<rparr>"

definition ticksNeeded :: "Routine \<Rightarrow> nat" where
  "ticksNeeded r = nat (max 1 (durationSeconds r))"

section \<open>Readings of the formatted strings\<close>

text \<open>Two predicates used to state what the formatters print, independently of how they
  print it. \<open>plain_decimal s v\<close>: \<open>s\<close> is the decimal numeral of \<open>v\<close> with no leading zero.
  \<open>padded2 s v\<close>: \<open>s\<close> is the decimal numeral of \<open>v\<close>, filled with zeros on the left up to
  two digits and no further.\<close>

definition plain_decimal :: "string \<Rightarrow> int \<Rightarrow> bool" where
  "plain_decimal s v =
     (s \<noteq> [] \<and> list_all is_digit s \<and> int (dec_value s) = v \<and> (1 < length s \<longrightarrow> hd s \<noteq> CHR ''0''))"

definition padded2 :: "string \<Rightarrow> int \<Rightarrow> bool" where
  "padded2 s v =
     (2 \<le> length s \<and> list_all is_digit s \<and> int (dec_value s) = v \<and> (2 < length s \<longrightarrow> hd s \<noteq> CHR ''0''))"

text \<open>The rendering that the specification describes for \<^verbatim>\<open>formatDuration\<close>: \<^verbatim>\<open>H:MM:SS\<close> from
  one hour on, \<^verbatim>\<open>M:SS\<close> from one minute on, the leading component without forced zero
  padding, and \<^verbatim>\<open>Ns\<close> below one minute.\<close>

definition claimed_formatDuration :: "int \<Rightarrow> string" where
  "claimed_formatDuration n =
     (if 3600 \<le> n then
        js_String (n div 3600) @ '':'' @ padStart 2 CHR ''0'' (js_String (n mod 3600 div 60)) @ '':''
          @ padStart 2 CHR ''0'' (js_String (n mod 60))
      else if 60 \<le> n then
        js_String (n div 60) @ '':'' @ padStart 2 CHR ''0'' (js_String (n mod 60))
      else js_String n @ ''s'')"

section \<open>Decimal digits\<close>

lemma digit_char_props: "d < 10 \<Longrightarrow> is_digit (digit_char d) \<and> digit_val (digit_char d) = d"
proof -
  assume "d < 10"
  then have "d \<in> set [0, 1, 2, 3, 4, 5, 6, 7, 8, 9]" by (simp add: numeral_eq_Suc less_Suc_eq)
  then show ?thesis
    by (auto simp: is_digit_def digit_char_def digit_val_def)
qed

lemma is_digit_not_special:
  "is_digit c \<Longrightarrow> c \<noteq> CHR '':'' \<and> c \<noteq> CHR ''.'' \<and> c \<noteq> CHR ''e'' \<and> c \<noteq> CHR ''E''
     \<and> c \<noteq> CHR ''-'' \<and> c \<noteq> CHR ''+'' \<and> c \<noteq> CHR ''I'' \<and> c \<noteq> CHR ''x'' \<and> c \<noteq> CHR ''X''
     \<and> c \<noteq> CHR ''o'' \<and> c \<noteq> CHR ''O'' \<and> c \<noteq> CHR ''b'' \<and> c \<noteq> CHR ''B'' \<and> \<not> is_js_space c"
  by (auto simp: is_digit_def is_js_space_def)

lemma nat_toString_digits: "list_all is_digit (nat_toString n)"
proof (induction n rule: nat_toString.induct)
  case (1 n)
  show ?case
  proof (cases "n < 10")
    case True
    then show ?thesis by (simp add: nat_toString.simps [of n] digit_char_props)
  next
    case False
    then have "list_all is_digit (nat_toString (n div 10))" using 1 by simp
    moreover have "is_digit (digit_char (n mod 10))" by (simp add: digit_char_props)
    ultimately show ?thesis using False by (simp add: nat_toString.simps [of n])
  qed
qed

lemma nat_toString_nonempty: "nat_toString n \<noteq> []"
  by (simp add: nat_toString.simps [of n])

lemma dec_value_snoc: "dec_value (ds @ [c]) = 10 * dec_value ds + digit_val c"
  by (simp add: dec_value_def)

lemma dec_value_nat_toString: "dec_value (nat_toString n) = n"
proof (induction n rule: nat_toString.induct)
  case (1 n)
  show ?case
  proof (cases "n < 10")
    case True
    then show ?thesis by (simp add: nat_toString.simps [of n] dec_value_def digit_char_props)
  next
    case False
    then have "dec_value (nat_toString (n div 10)) = n div 10" using 1 by simp
    then show ?thesis using False
      by (simp add: nat_toString.simps [of n] dec_value_snoc digit_char_props)
  qed
qed

lemma foldl_zeros: "foldl (\<lambda>a c. 10 * a + digit_val c) 0 (replicate k CHR ''0'') = 0"
  by (induction k) (simp_all add: digit_val_def)

lemma dec_value_pad: "dec_value (padStart k CHR ''0'' ds) = dec_value ds"
  by (simp add: dec_value_def padStart_def foldl_zeros)

lemma zeros_digits: "list_all is_digit (replicate k CHR ''0'')"
  by (induction k) (simp_all add: is_digit_def)

lemma pad_digits: "list_all is_digit ds \<Longrightarrow> list_all is_digit (padStart k CHR ''0'' ds)"
  by (simp add: padStart_def zeros_digits)

lemma pad_nonempty: "ds \<noteq> [] \<Longrightarrow> padStart k c ds \<noteq> []"
  by (simp add: padStart_def)

lemma trim_digits: "ds \<noteq> [] \<Longrightarrow> list_all is_digit ds \<Longrightarrow> js_trim ds = ds"
proof -
  assume ne: "ds \<noteq> []" and dg: "list_all is_digit ds"
  have h: "\<not> is_js_space (hd ds)" using ne dg is_digit_not_special by (cases ds) auto
  have l: "\<not> is_js_space (last ds)" using ne dg is_digit_not_special
    by (metis last_in_set list_all_iff)
  have "dropWhile is_js_space ds = ds" using ne h by (cases ds) auto
  moreover have "dropWhile is_js_space (rev ds) = rev ds" using ne l
    by (cases "rev ds") (auto simp: last_rev hd_rev)
  ultimately show ?thesis by (simp add: js_trim_def)
qed

lemma takeWhile_all: "list_all P xs \<Longrightarrow> takeWhile P xs = xs"
  by (induction xs) auto
lemma dropWhile_all: "list_all P xs \<Longrightarrow> dropWhile P xs = []"
  by (induction xs) auto

lemma radix_literal_digits: "list_all is_digit ds \<Longrightarrow> radix_literal ds = None"
  by (auto simp: radix_literal_def is_digit_def split: list.splits)

lemma mantissa_digits: "ds \<noteq> [] \<Longrightarrow> list_all is_digit ds \<Longrightarrow> mantissa ds = Num (int (dec_value ds))"
proof -
  assume ne: "ds \<noteq> []" and dg: "list_all is_digit ds"
  have "list_all (\<lambda>c. c \<noteq> CHR ''.'') ds" using dg is_digit_not_special by (auto simp: list_all_iff)
  then show ?thesis using ne dg by (simp add: mantissa_def takeWhile_all dropWhile_all)
qed

lemma unsigned_decimal_digits:
  "ds \<noteq> [] \<Longrightarrow> list_all is_digit ds \<Longrightarrow> unsigned_decimal ds = Num (int (dec_value ds))"
proof -
  assume ne: "ds \<noteq> []" and dg: "list_all is_digit ds"
  have "list_all (\<lambda>c. c \<noteq> CHR ''e'' \<and> c \<noteq> CHR ''E'') ds"
    using dg is_digit_not_special by (auto simp: list_all_iff)
  moreover have "ds \<noteq> ''Infinity''" using dg by (auto simp: is_digit_def)
  ultimately show ?thesis using ne dg
    by (simp add: unsigned_decimal_def takeWhile_all dropWhile_all mantissa_digits)
qed

lemma js_Number_digits:
  "ds \<noteq> [] \<Longrightarrow> list_all is_digit ds \<Longrightarrow> js_Number ds = Num (int (dec_value ds))"
proof -
  assume ne: "ds \<noteq> []" and dg: "list_all is_digit ds"
  obtain c r where cr: "ds = c # r" using ne by (cases ds) auto
  have c: "c \<noteq> CHR ''-'' \<and> c \<noteq> CHR ''+''" using dg cr is_digit_not_special by auto
  have "js_trim (c # r) = c # r" using trim_digits [OF ne dg] cr by simp
  moreover have "radix_literal (c # r) = None" using radix_literal_digits [OF dg] cr by simp
  moreover have "unsigned_decimal (c # r) = Num (int (dec_value ds))"
    using unsigned_decimal_digits [OF ne dg] cr by simp
  ultimately show ?thesis using c cr
    by (simp add: js_Number_def)
qed

lemma split_colon_plain: "CHR '':'' \<notin> set a \<Longrightarrow> split_colon a = [a]"
  by (induction a) auto

lemma split_colon_app: "CHR '':'' \<notin> set a \<Longrightarrow> split_colon (a @ CHR '':'' # b) = a # split_colon b"
  by (induction a) auto

section \<open>Formatting and re-reading a wall-clock time\<close>

lemma js_String_nonneg: "0 \<le> n \<Longrightarrow> js_String n = nat_toString (nat n)"
  by (simp add: js_String_def)

lemma pad2_Number: "0 \<le> n \<Longrightarrow> js_Number (padStart k CHR ''0'' (js_String n)) = Num n"
proof -
  assume n: "0 \<le> n"
  let ?p = "padStart k CHR ''0'' (nat_toString (nat n))"
  have "?p \<noteq> []" by (simp add: pad_nonempty nat_toString_nonempty)
  moreover have "list_all is_digit ?p" by (simp add: pad_digits nat_toString_digits)
  ultimately have "js_Number ?p = Num (int (dec_value ?p))" by (rule js_Number_digits)
  then show ?thesis using n by (simp add: dec_value_pad dec_value_nat_toString js_String_nonneg)
qed

lemma digits_no_colon: "list_all is_digit ds \<Longrightarrow> CHR '':'' \<notin> set ds"
  using is_digit_not_special by (auto simp: list_all_iff)

lemma pad2_no_colon: "0 \<le> n \<Longrightarrow> CHR '':'' \<notin> set (padStart k CHR ''0'' (js_String n))"
  by (simp add: digits_no_colon pad_digits nat_toString_digits js_String_nonneg)

lemma split_three:
  "CHR '':'' \<notin> set a \<Longrightarrow> CHR '':'' \<notin> set b \<Longrightarrow> CHR '':'' \<notin> set c \<Longrightarrow>
     split_colon (a @ '':'' @ b @ '':'' @ c) = [a, b, c]"
  by (simp add: split_colon_app split_colon_plain)

lemma split_two:
  "CHR '':'' \<notin> set a \<Longrightarrow> CHR '':'' \<notin> set b \<Longrightarrow> split_colon (a @ '':'' @ b) = [a, b]"
  by (simp add: split_colon_app split_colon_plain)

lemma hms_decompose: "(t::int) div 3600 * 3600 + t mod 3600 div 60 * 60 + t mod 60 = t"
proof -
  have "t mod 60 = (t mod 3600) mod 60" by (simp add: mod_mod_cancel)
  then show ?thesis by (simp add: algebra_simps)
qed

lemma parse_format_time: "parseTimeToDate (formatTimeFromDate d) = Some (d mod 86400)"
proof -
  let ?t = "d mod 86400"
  have t: "0 \<le> ?t" by simp
  have h: "0 \<le> ?t div 3600" and m: "0 \<le> ?t mod 3600 div 60" and s: "0 \<le> ?t mod 60"
    by (simp_all add: pos_imp_zdiv_nonneg_iff)
  have sp: "split_colon (formatTimeFromDate d) =
      [padStart 2 CHR ''0'' (js_String (?t div 3600)), padStart 2 CHR ''0'' (js_String (?t mod 3600 div 60)),
       padStart 2 CHR ''0'' (js_String (?t mod 60))]"
    unfolding formatTimeFromDate_def Let_def
    by (rule split_three) (simp_all only: pad2_no_colon [OF h] pad2_no_colon [OF m] pad2_no_colon [OF s] not_False_eq_True)
  show ?thesis
    unfolding parseTimeToDate_def sp
    by (simp add: part_or_zero_def pad2_Number [OF h] pad2_Number [OF m] pad2_Number [OF s]
        hms_decompose del: mod_mod_trivial)
qed



text \<open>A time string whose colon-separated parts are runs of digits (such as \<^verbatim>\<open>HH:MM:SS\<close> and
  \<^verbatim>\<open>HH:MM\<close>) is always read as a date.\<close>

lemma js_Number_digit_part: "list_all is_digit p \<Longrightarrow> js_Number p = Num (int (dec_value p))"
proof (cases "p = []")
  case True
  then show ?thesis by (simp add: js_Number_def js_trim_def dec_value_def)
next
  case False
  assume "list_all is_digit p"
  with False show ?thesis by (rule js_Number_digits)
qed

lemma part_or_zero_digits:
  "\<forall>p\<in>set ps. list_all is_digit p \<Longrightarrow> part_or_zero (map js_Number ps) k \<noteq> None"
  by (auto simp: part_or_zero_def js_Number_digit_part)

lemma parseTimeToDate_digits:
  assumes "\<forall>p\<in>set (split_colon s). list_all is_digit p"
  shows "parseTimeToDate s \<noteq> None"
proof -
  obtain h m c where "part_or_zero (map js_Number (split_colon s)) 0 = Some h"
    "part_or_zero (map js_Number (split_colon s)) 1 = Some m"
    "part_or_zero (map js_Number (split_colon s)) 2 = Some c"
    using part_or_zero_digits [OF assms] by (metis not_None_eq)
  then show ?thesis by (simp add: parseTimeToDate_def)
qed

section \<open>A colon never occurs in a numeric literal\<close>

lemma dropWhile_keeps: "x \<in> set xs \<Longrightarrow> \<not> P x \<Longrightarrow> x \<in> set (dropWhile P xs)"
  by (induction xs) auto

lemma trim_keeps: "c \<in> set s \<Longrightarrow> \<not> is_js_space c \<Longrightarrow> c \<in> set (js_trim s)"
  by (simp add: js_trim_def dropWhile_keeps)

lemma trim_subset: "set (js_trim s) \<subseteq> set s"
proof -
  have "set (dropWhile is_js_space (rev (dropWhile is_js_space s))) \<subseteq> set (rev (dropWhile is_js_space s))"
    by (rule set_dropWhileD [THEN subsetI])
  also have "\<dots> \<subseteq> set s" using set_dropWhileD by fastforce
  finally show ?thesis by (simp add: js_trim_def)
qed

lemma radix_value_chars: "radix_value b acc cs = Some v \<Longrightarrow> c \<in> set cs \<Longrightarrow> radix_digit c \<noteq> None"
  by (induction cs arbitrary: acc) (auto split: option.splits if_splits)

lemma radix_digit_colon: "radix_digit CHR '':'' = None"
  by (simp add: radix_digit_def is_digit_def)

lemma radix_literal_colon: "CHR '':'' \<in> set t \<Longrightarrow> radix_literal t = None"
proof (rule ccontr)
  assume c: "CHR '':'' \<in> set t" and "radix_literal t \<noteq> None"
  then obtain v where v: "radix_literal t = Some v" by auto
  then obtain z p ds b where t: "t = z # p # ds" and z: "z = CHR ''0''"
      and p: "p \<in> set ''xXoObB''" and rv: "radix_value b 0 ds = Some v"
    by (auto simp: radix_literal_def split: list.splits if_splits)
  from c t z p have "CHR '':'' \<in> set ds" by auto
  with rv radix_digit_colon show False using radix_value_chars by blast
qed

lemma mantissa_colon: "CHR '':'' \<in> set m \<Longrightarrow> mantissa m = NaN"
proof -
  assume c: "CHR '':'' \<in> set m"
  define ip where "ip = takeWhile (\<lambda>c. c \<noteq> CHR ''.'') m"
  define rest where "rest = dropWhile (\<lambda>c. c \<noteq> CHR ''.'') m"
  have md: "mantissa m =
     (if rest = [] then (if ip \<noteq> [] \<and> list_all is_digit ip then Num (int (dec_value ip)) else NaN)
      else if list_all is_digit ip \<and> list_all is_digit (tl rest) \<and> (ip \<noteq> [] \<or> tl rest \<noteq> []) then
             (if list_all (\<lambda>c. c = CHR ''0'') (tl rest) then Num (int (dec_value ip)) else Untracked)
      else NaN)"
    by (simp only: mantissa_def Let_def ip_def rest_def)
  have "m = ip @ rest" by (simp add: ip_def rest_def)
  then have "CHR '':'' \<in> set ip \<or> CHR '':'' \<in> set rest" using c by (metis Un_iff set_append)
  then show ?thesis
  proof
    assume "CHR '':'' \<in> set ip"
    then have "\<not> list_all is_digit ip" using digits_no_colon by blast
    then show ?thesis by (simp add: md)
  next
    assume r: "CHR '':'' \<in> set rest"
    then have ne: "rest \<noteq> []" by auto
    then have "\<not> hd rest \<noteq> CHR ''.''" unfolding rest_def by (rule hd_dropWhile)
    then have "CHR '':'' \<in> set (tl rest)" using r ne by (cases rest) auto
    then have "\<not> list_all is_digit (tl rest)" using digits_no_colon by blast
    then show ?thesis using ne by (simp add: md)
  qed
qed

lemma is_exponent_colon: "CHR '':'' \<in> set e \<Longrightarrow> \<not> is_exponent e"
  using digits_no_colon by (cases e) (auto simp: is_exponent_def is_digit_def)

lemma unsigned_decimal_colon: "CHR '':'' \<in> set u \<Longrightarrow> unsigned_decimal u = NaN"
proof -
  assume c: "CHR '':'' \<in> set u"
  define P where "P = (\<lambda>c. c \<noteq> CHR ''e'' \<and> c \<noteq> CHR ''E'')"
  define m where "m = takeWhile P u"
  define rest where "rest = dropWhile P u"
  have ud: "unsigned_decimal u =
     (if u = ''Infinity'' then Untracked
      else if rest = [] then mantissa m
      else if is_exponent (tl rest) then (case mantissa m of NaN \<Rightarrow> NaN | _ \<Rightarrow> Untracked)
      else NaN)"
    by (simp only: unsigned_decimal_def Let_def P_def m_def rest_def)
  have inf: "u \<noteq> ''Infinity''"
  proof
    assume "u = ''Infinity''"
    with c show False by simp
  qed
  have "u = m @ rest" by (simp add: m_def rest_def)
  then have "CHR '':'' \<in> set m \<or> CHR '':'' \<in> set rest" using c by (metis Un_iff set_append)
  then show ?thesis
  proof
    assume "CHR '':'' \<in> set m"
    then have "mantissa m = NaN" by (rule mantissa_colon)
    then show ?thesis using inf by (simp add: ud)
  next
    assume r: "CHR '':'' \<in> set rest"
    then have ne: "rest \<noteq> []" by auto
    then have "\<not> P (hd rest)" unfolding rest_def by (rule hd_dropWhile)
    then have "hd rest \<noteq> CHR '':''" by (auto simp: P_def)
    then have "CHR '':'' \<in> set (tl rest)" using r ne by (cases rest) auto
    then have "\<not> is_exponent (tl rest)" by (rule is_exponent_colon)
    then show ?thesis using ne inf by (simp add: ud)
  qed
qed

lemma colon_not_space: "\<not> is_js_space CHR '':''"
  by (simp add: is_js_space_def)

lemma js_Number_colon: "CHR '':'' \<in> set s \<Longrightarrow> js_Number s = NaN"
proof -
  assume "CHR '':'' \<in> set s"
  then have c: "CHR '':'' \<in> set (js_trim s)" by (simp add: trim_keeps colon_not_space)
  then obtain a r where t: "js_trim s = a # r" by (cases "js_trim s") auto
  have rl: "radix_literal (a # r) = None" using c t radix_literal_colon by simp
  have u: "unsigned_decimal (a # r) = NaN" using c t unsigned_decimal_colon by simp
  have "a = CHR ''-'' \<or> a = CHR ''+'' \<Longrightarrow> unsigned_decimal r = NaN"
    using c t unsigned_decimal_colon by auto
  then show ?thesis using t rl u by (auto simp: js_Number_def)
qed

section \<open>What the formatters print\<close>

lemma digit_char_zero: "0 < d \<Longrightarrow> d < 10 \<Longrightarrow> digit_char d \<noteq> CHR ''0''"
proof -
  assume "0 < d" "d < 10"
  then have "d \<in> set [1, 2, 3, 4, 5, 6, 7, 8, 9]" by (simp add: numeral_eq_Suc less_Suc_eq)
  then show ?thesis by (auto simp: digit_char_def)
qed

lemma nat_toString_hd: "0 < n \<Longrightarrow> hd (nat_toString n) \<noteq> CHR ''0''"
proof (induction n rule: nat_toString.induct)
  case (1 n)
  show ?case
  proof (cases "n < 10")
    case True
    then show ?thesis using "1.prems" by (simp add: nat_toString.simps [of n] digit_char_zero)
  next
    case False
    then have "hd (nat_toString (n div 10)) \<noteq> CHR ''0''" using 1 by simp
    then show ?thesis using False
      by (simp add: nat_toString.simps [of n] nat_toString_nonempty)
  qed
qed

lemma nat_toString_length1: "n < 10 \<Longrightarrow> length (nat_toString n) = 1"
  by (simp add: nat_toString.simps [of n])

lemma nat_toString_length2: "10 \<le> n \<Longrightarrow> n < 100 \<Longrightarrow> length (nat_toString n) = 2"
  by (simp add: nat_toString.simps [of n] nat_toString_length1)

lemma plain_decimal_String: "0 \<le> v \<Longrightarrow> plain_decimal (js_String v) v"
proof -
  assume v: "0 \<le> v"
  have "1 < length (nat_toString (nat v)) \<Longrightarrow> hd (nat_toString (nat v)) \<noteq> CHR ''0''"
  proof -
    assume "1 < length (nat_toString (nat v))"
    then have "0 < nat v" using nat_toString_length1 [of "nat v"] by (cases "nat v = 0") auto
    then show ?thesis by (rule nat_toString_hd)
  qed
  then show ?thesis using v
    by (simp add: plain_decimal_def js_String_nonneg nat_toString_nonempty nat_toString_digits
        dec_value_nat_toString)
qed

lemma padded2_pad: "0 \<le> v \<Longrightarrow> padded2 (padStart 2 CHR ''0'' (js_String v)) v"
proof -
  assume v: "0 \<le> v"
  let ?d = "nat_toString (nat v)"
  have len: "2 \<le> length (padStart 2 CHR ''0'' ?d)" by (simp add: padStart_def)
  have hd: "2 < length (padStart 2 CHR ''0'' ?d) \<Longrightarrow> hd (padStart 2 CHR ''0'' ?d) \<noteq> CHR ''0''"
  proof -
    assume "2 < length (padStart 2 CHR ''0'' ?d)"
    then have l: "2 < length ?d" by (simp add: padStart_def split: if_splits)
    then have "0 < nat v" using nat_toString_length1 [of "nat v"] by (cases "nat v = 0") auto
    then have "hd ?d \<noteq> CHR ''0''" by (rule nat_toString_hd)
    moreover have "padStart 2 CHR ''0'' ?d = ?d" using l by (simp add: padStart_def)
    ultimately show ?thesis by simp
  qed
  show ?thesis using v len hd
    by (simp add: padded2_def js_String_nonneg pad_digits nat_toString_digits dec_value_pad
        dec_value_nat_toString)
qed

lemma pad2_length: "0 \<le> v \<Longrightarrow> v < 100 \<Longrightarrow> length (padStart 2 CHR ''0'' (js_String v)) = 2"
proof -
  assume v: "0 \<le> v" "v < 100"
  show ?thesis
  proof (cases "v < 10")
    case True
    then show ?thesis using v by (simp add: js_String_nonneg padStart_def nat_toString_length1)
  next
    case False
    then have "length (nat_toString (nat v)) = 2" using v by (intro nat_toString_length2) auto
    then show ?thesis using v by (simp add: js_String_nonneg padStart_def)
  qed
qed

lemma formatTimeLeft_hours:
  "3600 \<le> n \<Longrightarrow> formatTimeLeft n =
     padStart 2 CHR ''0'' (js_String (n div 3600)) @ '':'' @
     padStart 2 CHR ''0'' (js_String (n mod 3600 div 60)) @ '':'' @
     padStart 2 CHR ''0'' (js_String (n mod 60))"
  by (simp add: formatTimeLeft_def Let_def pos_imp_zdiv_pos_iff)

lemma formatTimeLeft_minutes:
  "n < 3600 \<Longrightarrow> formatTimeLeft n =
     padStart 2 CHR ''0'' (js_String (max 0 n div 60)) @ '':'' @
     padStart 2 CHR ''0'' (js_String (max 0 n mod 60))"
  by (simp add: formatTimeLeft_def Let_def max_def)

lemma formatDuration_hours:
  "3600 \<le> n \<Longrightarrow> formatDuration n =
     padStart 2 CHR ''0'' (js_String (n div 3600)) @ '':'' @
     padStart 2 CHR ''0'' (js_String (n mod 3600 div 60)) @ '':'' @
     padStart 2 CHR ''0'' (js_String (n mod 60))"
  by (simp add: formatDuration_def Let_def pos_imp_zdiv_pos_iff)

lemma formatDuration_minutes:
  "60 \<le> n \<Longrightarrow> n < 3600 \<Longrightarrow> formatDuration n =
     padStart 2 CHR ''0'' (js_String (n div 60)) @ '':'' @
     padStart 2 CHR ''0'' (js_String (n mod 60))"
  by (simp add: formatDuration_def Let_def pos_imp_zdiv_pos_iff)

lemma formatDuration_seconds:
  "n < 60 \<Longrightarrow> formatDuration n = js_String (max 0 n) @ ''s''"
  by (simp add: formatDuration_def Let_def max_def)

section \<open>Properties of the duration codec\<close>

lemma parse_colon_string:
  assumes "CHR '':'' \<in> set s"
  shows "parseDurationToSeconds s = parseColonForm s"
proof -
  have "s \<noteq> []" using assms by auto
  moreover have "js_trim s \<noteq> []" using trim_keeps [OF assms colon_not_space] by auto
  moreover have "js_Number s = NaN" using assms by (rule js_Number_colon)
  ultimately show ?thesis by (simp add: parseDurationToSeconds_def)
qed

lemma parse_hms:
  assumes "0 \<le> h" "0 \<le> m" "0 \<le> s"
  shows "parseDurationToSeconds (padStart 2 CHR ''0'' (js_String h) @ '':'' @
            padStart 2 CHR ''0'' (js_String m) @ '':'' @ padStart 2 CHR ''0'' (js_String s))
         = Seconds (h * 3600 + m * 60 + s)"
proof -
  let ?str = "padStart 2 CHR ''0'' (js_String h) @ '':'' @
            padStart 2 CHR ''0'' (js_String m) @ '':'' @ padStart 2 CHR ''0'' (js_String s)"
  have sp: "split_colon ?str = [padStart 2 CHR ''0'' (js_String h), padStart 2 CHR ''0'' (js_String m),
       padStart 2 CHR ''0'' (js_String s)]"
    by (rule split_three) (simp_all only: pad2_no_colon assms not_False_eq_True)
  have "parseColonForm ?str = Seconds (max 0 (h * 3600 + m * 60 + s))"
    unfolding parseColonForm_def sp
    by (simp add: pad2_Number assms)
  moreover have "0 \<le> h * 3600 + m * 60 + s" using assms by simp
  moreover have "parseDurationToSeconds ?str = parseColonForm ?str"
    by (rule parse_colon_string) simp
  ultimately show ?thesis by simp
qed

lemma parse_ms:
  assumes "0 \<le> m" "0 \<le> s"
  shows "parseDurationToSeconds (padStart 2 CHR ''0'' (js_String m) @ '':'' @ padStart 2 CHR ''0'' (js_String s))
         = Seconds (m * 60 + s)"
proof -
  let ?str = "padStart 2 CHR ''0'' (js_String m) @ '':'' @ padStart 2 CHR ''0'' (js_String s)"
  have sp: "split_colon ?str = [padStart 2 CHR ''0'' (js_String m), padStart 2 CHR ''0'' (js_String s)]"
    by (rule split_two) (simp_all only: pad2_no_colon assms not_False_eq_True)
  have "parseColonForm ?str = Seconds (max 0 (m * 60 + s))"
    unfolding parseColonForm_def sp
    by (simp add: pad2_Number assms)
  moreover have "0 \<le> m * 60 + s" using assms by simp
  moreover have "parseDurationToSeconds ?str = parseColonForm ?str"
    by (rule parse_colon_string) simp
  ultimately show ?thesis by simp
qed

text \<open>
  Claim C5. For every integer number of seconds \<open>n\<close> of at least one minute, formatting
  the duration and parsing the result gives \<open>n\<close> back:
  \<^verbatim>\<open>parseDurationToSeconds(formatDuration(n)) == n\<close>.
\<close>
theorem format_then_parse_roundtrip:
  "60 \<le> n \<Longrightarrow> parseDurationToSeconds (formatDuration n) = Seconds n"
proof (cases "3600 \<le> n")
  case True
  have "0 \<le> n div 3600" "0 \<le> n mod 3600 div 60" "0 \<le> n mod 60"
    using True by (simp_all add: pos_imp_zdiv_nonneg_iff)
  then show ?thesis using True
    by (simp only: formatDuration_hours parse_hms hms_decompose)
next
  case False
  assume n: "60 \<le> n"
  have "0 \<le> n div 60" "0 \<le> n mod 60" using n by (simp_all add: pos_imp_zdiv_nonneg_iff)
  moreover have "n div 60 * 60 + n mod 60 = n" by simp
  ultimately show ?thesis using False n
    by (simp only: formatDuration_minutes parse_ms not_le)
qed

theorem format_then_parse_roundtrip_witness:
  "(60::int) \<le> 3661 \<and> formatDuration 3661 = ''01:01:01''
     \<and> parseDurationToSeconds ''01:01:01'' = Seconds 3661"
proof -
  have f: "formatDuration 3661 = ''01:01:01''" by code_simp
  have "(60::int) \<le> 3661" by simp
  from format_then_parse_roundtrip [OF this] f show ?thesis by simp
qed

text \<open>
  Claim C6. \<^verbatim>\<open>formatTimeLeft\<close> (the countdown formatter) prints every component with at least
  two digits, zero-padded: hours, minutes and seconds separated by colons from one hour
  on, minutes and seconds otherwise (a negative argument counts as zero). There is no
  bare-seconds form. In particular \<open>0\<close> is printed as \<^verbatim>\<open>00:00\<close> and \<open>3661\<close> as \<^verbatim>\<open>01:01:01\<close>.
\<close>
theorem formatTimeLeft_zero_padded:
  "formatTimeLeft 0 = ''00:00'' \<and> formatTimeLeft 3661 = ''01:01:01'' \<and>
   (\<forall>n. 3600 \<le> n \<longrightarrow>
      (\<exists>H M S. formatTimeLeft n = H @ '':'' @ M @ '':'' @ S
         \<and> padded2 H (n div 3600)
         \<and> padded2 M (n mod 3600 div 60) \<and> length M = 2
         \<and> padded2 S (n mod 60) \<and> length S = 2)) \<and>
   (\<forall>n. n < 3600 \<longrightarrow>
      (\<exists>M S. formatTimeLeft n = M @ '':'' @ S
         \<and> padded2 M (max 0 n div 60) \<and> length M = 2
         \<and> padded2 S (max 0 n mod 60) \<and> length S = 2))"
proof (intro conjI allI impI)
  show "formatTimeLeft 0 = ''00:00''" by code_simp
  show "formatTimeLeft 3661 = ''01:01:01''" by code_simp
next
  fix n :: int assume n: "3600 \<le> n"
  have h: "0 \<le> n div 3600" using n by (simp add: pos_imp_zdiv_nonneg_iff)
  have m: "0 \<le> n mod 3600 div 60" "n mod 3600 div 60 < 100" by arith+
  have s: "0 \<le> n mod 60" "n mod 60 < 100" using pos_mod_bound [of 60 n] by simp_all
  show "\<exists>H M S. formatTimeLeft n = H @ '':'' @ M @ '':'' @ S
         \<and> padded2 H (n div 3600)
         \<and> padded2 M (n mod 3600 div 60) \<and> length M = 2
         \<and> padded2 S (n mod 60) \<and> length S = 2"
    using formatTimeLeft_hours [OF n] padded2_pad [OF h] padded2_pad [OF m(1)] padded2_pad [OF s(1)]
      pad2_length [OF m] pad2_length [OF s] by blast
next
  fix n :: int assume n: "n < 3600"
  have m: "0 \<le> max 0 n div 60" "max 0 n div 60 < 100" using n by arith+
  have s: "0 \<le> max 0 n mod 60" "max 0 n mod 60 < 100" using pos_mod_bound [of 60 "max 0 n"] by simp_all
  show "\<exists>M S. formatTimeLeft n = M @ '':'' @ S
         \<and> padded2 M (max 0 n div 60) \<and> length M = 2
         \<and> padded2 S (max 0 n mod 60) \<and> length S = 2"
    using formatTimeLeft_minutes [OF n] padded2_pad [OF m(1)] padded2_pad [OF s(1)]
      pad2_length [OF m] pad2_length [OF s] by blast
qed

theorem formatTimeLeft_zero_padded_witness:
  "(3600::int) \<le> 7325 \<and> formatTimeLeft 7325 = ''02:02:05'' \<and>
   (\<exists>H M S. formatTimeLeft 7325 = H @ '':'' @ M @ '':'' @ S
      \<and> padded2 H 2 \<and> padded2 M 2 \<and> length M = 2 \<and> padded2 S 5 \<and> length S = 2) \<and>
   (59::int) < 3600 \<and>
   (\<exists>M S. formatTimeLeft 59 = M @ '':'' @ S
      \<and> padded2 M 0 \<and> length M = 2 \<and> padded2 S 59 \<and> length S = 2)"
proof -
  have a: "(3600::int) \<le> 7325" and b: "(59::int) < 3600" by simp_all
  have f: "formatTimeLeft 7325 = ''02:02:05''" by code_simp
  from formatTimeLeft_zero_padded have
    "\<exists>H M S. formatTimeLeft 7325 = H @ '':'' @ M @ '':'' @ S
         \<and> padded2 H (7325 div 3600)
         \<and> padded2 M (7325 mod 3600 div 60) \<and> length M = 2
         \<and> padded2 S (7325 mod 60) \<and> length S = 2"
    using a by blast
  moreover from formatTimeLeft_zero_padded have
    "\<exists>M S. formatTimeLeft 59 = M @ '':'' @ S
         \<and> padded2 M (max 0 59 div 60) \<and> length M = 2
         \<and> padded2 S (max 0 59 mod 60) \<and> length S = 2"
    using b by blast
  ultimately show ?thesis using f by simp
qed

text \<open>
  Claim C7, as amended. For every non-negative integer \<open>n\<close>, \<^verbatim>\<open>formatDuration\<close> prints
  hours, minutes and seconds separated by colons when \<open>n \<ge> 3600\<close>, minutes and seconds
  when \<open>60 \<le> n < 3600\<close>, each component zero-padded to two digits (the leading one
  included), and the decimal numeral of \<open>n\<close> followed by the letter \<^verbatim>\<open>s\<close> when \<open>n < 60\<close>.
\<close>
theorem formatDuration_padded:
  "(\<forall>n. 3600 \<le> n \<longrightarrow>
      (\<exists>H M S. formatDuration n = H @ '':'' @ M @ '':'' @ S
         \<and> padded2 H (n div 3600)
         \<and> padded2 M (n mod 3600 div 60) \<and> length M = 2
         \<and> padded2 S (n mod 60) \<and> length S = 2)) \<and>
   (\<forall>n. 60 \<le> n \<and> n < 3600 \<longrightarrow>
      (\<exists>M S. formatDuration n = M @ '':'' @ S
         \<and> padded2 M (n div 60) \<and> length M = 2
         \<and> padded2 S (n mod 60) \<and> length S = 2)) \<and>
   (\<forall>n. 0 \<le> n \<and> n < 60 \<longrightarrow> (\<exists>D. formatDuration n = D @ ''s'' \<and> plain_decimal D n))"
proof (intro conjI allI impI)
  fix n :: int assume n: "3600 \<le> n"
  have h: "0 \<le> n div 3600" using n by (simp add: pos_imp_zdiv_nonneg_iff)
  have m: "0 \<le> n mod 3600 div 60" "n mod 3600 div 60 < 100" by arith+
  have s: "0 \<le> n mod 60" "n mod 60 < 100" using pos_mod_bound [of 60 n] by simp_all
  show "\<exists>H M S. formatDuration n = H @ '':'' @ M @ '':'' @ S
         \<and> padded2 H (n div 3600)
         \<and> padded2 M (n mod 3600 div 60) \<and> length M = 2
         \<and> padded2 S (n mod 60) \<and> length S = 2"
    using formatDuration_hours [OF n] padded2_pad [OF h] padded2_pad [OF m(1)] padded2_pad [OF s(1)]
      pad2_length [OF m] pad2_length [OF s] by blast
next
  fix n :: int assume n: "60 \<le> n \<and> n < 3600"
  have m: "0 \<le> n div 60" "n div 60 < 100" using n by arith+
  have s: "0 \<le> n mod 60" "n mod 60 < 100" using pos_mod_bound [of 60 n] by simp_all
  show "\<exists>M S. formatDuration n = M @ '':'' @ S
         \<and> padded2 M (n div 60) \<and> length M = 2
         \<and> padded2 S (n mod 60) \<and> length S = 2"
    using formatDuration_minutes [of n] n padded2_pad [OF m(1)] padded2_pad [OF s(1)]
      pad2_length [OF m] pad2_length [OF s] by blast
next
  fix n :: int assume n: "0 \<le> n \<and> n < 60"
  then have "formatDuration n = js_String n @ ''s''" using formatDuration_seconds [of n] by (simp add: max_def)
  then show "\<exists>D. formatDuration n = D @ ''s'' \<and> plain_decimal D n"
    using plain_decimal_String [of n] n by blast
qed

theorem formatDuration_padded_witness:
  "(3600::int) \<le> 3600 \<and> formatDuration 3600 = ''01:00:00'' \<and>
   (\<exists>H M S. formatDuration 3600 = H @ '':'' @ M @ '':'' @ S
      \<and> padded2 H 1 \<and> padded2 M 0 \<and> length M = 2 \<and> padded2 S 0 \<and> length S = 2) \<and>
   (60::int) \<le> 90 \<and> (90::int) < 3600 \<and> formatDuration 90 = ''01:30'' \<and>
   (\<exists>M S. formatDuration 90 = M @ '':'' @ S
      \<and> padded2 M 1 \<and> length M = 2 \<and> padded2 S 30 \<and> length S = 2) \<and>
   (0::int) \<le> 59 \<and> (59::int) < 60 \<and> formatDuration 59 = ''59s'' \<and>
   (\<exists>D. formatDuration 59 = D @ ''s'' \<and> plain_decimal D 59)"
proof -
  have f: "formatDuration 3600 = ''01:00:00''" "formatDuration 90 = ''01:30''"
    "formatDuration 59 = ''59s''" by code_simp+
  from formatDuration_padded have
    "\<exists>H M S. formatDuration 3600 = H @ '':'' @ M @ '':'' @ S
         \<and> padded2 H (3600 div 3600)
         \<and> padded2 M (3600 mod 3600 div 60) \<and> length M = 2
         \<and> padded2 S (3600 mod 60) \<and> length S = 2"
    by (meson order_refl)
  moreover from formatDuration_padded have
    "(60::int) \<le> 90 \<and> (90::int) < 3600 \<longrightarrow> (\<exists>M S. formatDuration 90 = M @ '':'' @ S
         \<and> padded2 M (90 div 60) \<and> length M = 2
         \<and> padded2 S (90 mod 60) \<and> length S = 2)"
    by blast
  moreover from formatDuration_padded have
    "(0::int) \<le> 59 \<and> (59::int) < 60 \<longrightarrow> (\<exists>D. formatDuration 59 = D @ ''s'' \<and> plain_decimal D 59)"
    by blast
  ultimately show ?thesis using f by simp
qed

text \<open>
  The claim as the specification words it has the leading component without forced zero
  padding (\<^const>\<open>claimed_formatDuration\<close>). One hour and one minute show the difference: the
  code pads the leading component too.
\<close>

theorem formatDuration_hour_counterexample:
  "formatDuration 3600 = ''01:00:00'' \<and> claimed_formatDuration 3600 = ''1:00:00''
     \<and> formatDuration 3600 \<noteq> claimed_formatDuration 3600
     \<and> formatDuration 60 = ''01:00'' \<and> claimed_formatDuration 60 = ''1:00''
     \<and> formatDuration 60 \<noteq> claimed_formatDuration 60"
proof -
  have "formatDuration 3600 = ''01:00:00''" "claimed_formatDuration 3600 = ''1:00:00''"
    "formatDuration 60 = ''01:00''" "claimed_formatDuration 60 = ''1:00''" by code_simp+
  then show ?thesis by simp
qed

subsection \<open>Parsing a duration\<close>

















section \<open>Properties of the cascade\<close>






text \<open>The hypothesis of the next theorem holds for every list whose time strings have
  digits between the colons, as \<^verbatim>\<open>HH:MM:SS\<close> strings have.\<close>

lemma cascadeStart_digits:
  assumes "\<forall>r\<in>set rs. (\<forall>p\<in>set (split_colon (startTime r)). list_all is_digit p)
              \<and> (\<forall>p\<in>set (split_colon (endTime r)). list_all is_digit p)"
    and "i < length rs"
  shows "cascadeStart now rs i \<noteq> None"
proof (cases "i = 0")
  case True
  have "rs ! i \<in> set rs" using assms(2) by simp
  then have "parseTimeToDate (startTime (rs ! i)) \<noteq> None"
    using assms(1) by (intro parseTimeToDate_digits) blast
  then show ?thesis using True by (simp add: cascadeStart_def)
next
  case False
  then have "rs ! (i - 1) \<in> set rs" using assms(2) by simp
  then have "parseTimeToDate (endTime (rs ! (i - 1))) \<noteq> None"
    using assms(1) by (intro parseTimeToDate_digits) blast
  then show ?thesis using False by (simp add: cascadeStart_def)
qed



section \<open>Properties of adding a routine\<close>

lemma those_map_Some: "(\<And>x. x \<in> set xs \<Longrightarrow> f x = Some (g x)) \<Longrightarrow> those (map f xs) = Some (map g xs)"
  by (induction xs) simp_all

lemma distinct_id_eq:
  "distinct (map list_id ls) \<Longrightarrow> x \<in> set ls \<Longrightarrow> y \<in> set ls \<Longrightarrow> list_id x = list_id y \<Longrightarrow> x = y"
  by (meson distinct_map inj_onD)

lemma eight_o_clock: "parseTimeToDate ''08:00:00'' = Some 28800"
  by code_simp

lemma handleAddRoutineToList_one:
  assumes "distinct (map list_id prevLists)" "list \<in> set prevLists"
    and "addRoutineToList newId name d st list = Some list'"
  shows "handleAddRoutineToList newId prevLists (list_id list) name d st
           = Some (map (\<lambda>x. if list_id x = list_id list then list' else x) prevLists)"
  unfolding handleAddRoutineToList_def
proof (rule those_map_Some)
  fix x assume "x \<in> set prevLists"
  then have "list_id x = list_id list \<Longrightarrow> x = list" using assms(1,2) distinct_id_eq by blast
  then show "(if list_id x = list_id list then addRoutineToList newId name d st x else Some x)
      = Some (if list_id x = list_id list then list' else x)"
    using assms(3) by auto
qed

lemma split_colon_nonempty: "split_colon s \<noteq> []"
  by (induction s) auto

lemma split_colon_append: "split_colon (a @ CHR '':'' # b) = split_colon a @ split_colon b"
proof (induction a)
  case Nil
  show ?case by simp
next
  case (Cons c cs)
  show ?case
  proof (cases "c = CHR '':''")
    case True
    then show ?thesis using Cons by simp
  next
    case False
    then show ?thesis using Cons split_colon_nonempty [of cs]
      by (cases "split_colon cs") simp_all
  qed
qed

lemma part_or_zero_snoc: "part_or_zero (ps @ [Num 0]) k = part_or_zero ps k"
  by (auto simp: part_or_zero_def nth_append)

lemma parse_with_seconds: "parseTimeToDate (st @ '':00'') = parseTimeToDate st"
proof -
  have "js_Number ''00'' = Num 0" by code_simp
  moreover have "split_colon ''00'' = [''00'']" by simp
  ultimately have "map js_Number (split_colon (st @ '':00'')) = map js_Number (split_colon st) @ [Num 0]"
    using split_colon_append [of st "''00''"] by simp
  then show ?thesis
    by (simp add: parseTimeToDate_def Let_def part_or_zero_snoc cong: option.case_cong)
qed

lemma addRoutineToList_supplied:
  assumes "st \<noteq> []" and "parseTimeToDate st = Some t"
  shows "addRoutineToList newId name d (Some st) list
     = Some (list\<lparr>routines := routines list @
               [\<lparr>routine_id = newId, routine_name = name, startTime = st @ '':00'',
                 durationSeconds = d, endTime = formatTimeFromDate (addSecondsToDate t d)\<rparr>]\<rparr>)"
  using assms by (simp add: addRoutineToList_def parse_with_seconds)

lemma addRoutineToList_chained:
  assumes "routines list \<noteq> []" and "parseTimeToDate (endTime (last (routines list))) = Some t"
  shows "addRoutineToList newId name d None list
     = Some (list\<lparr>routines := routines list @
               [\<lparr>routine_id = newId, routine_name = name, startTime = endTime (last (routines list)),
                 durationSeconds = d, endTime = formatTimeFromDate (addSecondsToDate t d)\<rparr>]\<rparr>)"
  using assms by (simp add: addRoutineToList_def)

lemma submit_valid:
  assumes "js_trim name \<noteq> []" and "parseDurationToSeconds durationInput = Seconds d" and "0 < d"
  shows "handleSubmitNewRoutine newId prevLists list name durationInput st =
     (case handleAddRoutineToList newId prevLists (list_id list) name d
             (if routines list = [] then Some st else None) of
        None \<Rightarrow> UntrackedInput | Some newLists \<Rightarrow> Applied newLists)"
  using assms by (simp add: handleSubmitNewRoutine_def)

text \<open>
  Claim C2. Adding a routine through the form of a list (\<^verbatim>\<open>handleSubmitNewRoutine\<close>, which
  calls \<^verbatim>\<open>handleAddRoutineToList\<close>), with a name that is not blank and a duration that parses
  to a positive number of seconds:
  \<^item> if the list is empty, the start time of the form (with \<^verbatim>\<open>:00\<close> appended for the seconds,
    which does not change the time of day it denotes) becomes the start time of the new
    first routine;
  \<^item> if the list is not empty, the new routine starts at the end time of the last routine,
    whatever the start time of the form is;
  \<^item> in both cases the routine is appended, with an end time that is its start time plus
    its duration.
  It is the form handler that withholds the start time for a list that is not empty:
  lemma \<open>addRoutineToList_supplied\<close> holds for every list.
\<close>
theorem add_routine_start_time:
  assumes "distinct (map list_id prevLists)" and "list \<in> set prevLists"
    and "js_trim name \<noteq> []" and "parseDurationToSeconds durationInput = Seconds d" and "0 < d"
  shows "(routines list = [] \<and> st \<noteq> [] \<and> parseTimeToDate st = Some t \<longrightarrow>
            handleSubmitNewRoutine newId prevLists list name durationInput st
              = Applied (map (\<lambda>x. if list_id x = list_id list
                   then list\<lparr>routines :=
                     [\<lparr>routine_id = newId, routine_name = name, startTime = st @ '':00'',
                       durationSeconds = d,
                       endTime = formatTimeFromDate (addSecondsToDate t d)\<rparr>]\<rparr>
                   else x) prevLists)) \<and>
         (routines list \<noteq> [] \<and> parseTimeToDate (endTime (last (routines list))) = Some t \<longrightarrow>
            handleSubmitNewRoutine newId prevLists list name durationInput st
              = Applied (map (\<lambda>x. if list_id x = list_id list
                   then list\<lparr>routines := routines list @
                     [\<lparr>routine_id = newId, routine_name = name,
                       startTime = endTime (last (routines list)), durationSeconds = d,
                       endTime = formatTimeFromDate (addSecondsToDate t d)\<rparr>]\<rparr>
                   else x) prevLists))"
proof (intro conjI impI)
  assume a: "routines list = [] \<and> st \<noteq> [] \<and> parseTimeToDate st = Some t"
  then have "addRoutineToList newId name d (Some st) list
     = Some (list\<lparr>routines := routines list @
               [\<lparr>routine_id = newId, routine_name = name, startTime = st @ '':00'',
                 durationSeconds = d, endTime = formatTimeFromDate (addSecondsToDate t d)\<rparr>]\<rparr>)"
    by (simp add: addRoutineToList_supplied)
  from handleAddRoutineToList_one [OF assms(1,2) this] a
  show "handleSubmitNewRoutine newId prevLists list name durationInput st
              = Applied (map (\<lambda>x. if list_id x = list_id list
                   then list\<lparr>routines :=
                     [\<lparr>routine_id = newId, routine_name = name, startTime = st @ '':00'',
                       durationSeconds = d,
                       endTime = formatTimeFromDate (addSecondsToDate t d)\<rparr>]\<rparr>
                   else x) prevLists)"
    by (simp add: submit_valid [OF assms(3,4,5)])
next
  assume a: "routines list \<noteq> [] \<and> parseTimeToDate (endTime (last (routines list))) = Some t"
  then have "addRoutineToList newId name d None list
     = Some (list\<lparr>routines := routines list @
               [\<lparr>routine_id = newId, routine_name = name, startTime = endTime (last (routines list)),
                 durationSeconds = d, endTime = formatTimeFromDate (addSecondsToDate t d)\<rparr>]\<rparr>)"
    by (simp add: addRoutineToList_chained)
  from handleAddRoutineToList_one [OF assms(1,2) this] a
  show "handleSubmitNewRoutine newId prevLists list name durationInput st
              = Applied (map (\<lambda>x. if list_id x = list_id list
                   then list\<lparr>routines := routines list @
                     [\<lparr>routine_id = newId, routine_name = name,
                       startTime = endTime (last (routines list)), durationSeconds = d,
                       endTime = formatTimeFromDate (addSecondsToDate t d)\<rparr>]\<rparr>
                   else x) prevLists)"
    by (simp add: submit_valid [OF assms(3,4,5)])
qed

theorem add_routine_start_time_witness:
  "distinct (map list_id [\<lparr>list_id = ''l'', title = ''T'', routines = []\<rparr>])
   \<and> js_trim ''A'' \<noteq> [] \<and> parseDurationToSeconds ''25'' = Seconds 1500 \<and> (0::int) < 1500
   \<and> parseTimeToDate ''08:00'' = Some 28800
   \<and> handleSubmitNewRoutine ''n'' [\<lparr>list_id = ''l'', title = ''T'', routines = []\<rparr>]
        \<lparr>list_id = ''l'', title = ''T'', routines = []\<rparr> ''A'' ''25'' ''08:00''
      = Applied [\<lparr>list_id = ''l'', title = ''T'', routines =
          [\<lparr>routine_id = ''n'', routine_name = ''A'', startTime = ''08:00:00'',
            durationSeconds = 1500, endTime = ''08:25:00''\<rparr>]\<rparr>]
   \<and> parseTimeToDate ''08:25:00'' = Some 30300
   \<and> handleSubmitNewRoutine ''m''
        [\<lparr>list_id = ''l'', title = ''T'', routines =
          [\<lparr>routine_id = ''n'', routine_name = ''A'', startTime = ''08:00:00'',
            durationSeconds = 1500, endTime = ''08:25:00''\<rparr>]\<rparr>]
        \<lparr>list_id = ''l'', title = ''T'', routines =
          [\<lparr>routine_id = ''n'', routine_name = ''A'', startTime = ''08:00:00'',
            durationSeconds = 1500, endTime = ''08:25:00''\<rparr>]\<rparr> ''B'' ''25'' ''23:00''
      = Applied [\<lparr>list_id = ''l'', title = ''T'', routines =
          [\<lparr>routine_id = ''n'', routine_name = ''A'', startTime = ''08:00:00'',
            durationSeconds = 1500, endTime = ''08:25:00''\<rparr>,
           \<lparr>routine_id = ''m'', routine_name = ''B'', startTime = ''08:25:00'',
            durationSeconds = 1500, endTime = ''08:50:00''\<rparr>]\<rparr>]"
proof -
  let ?e = "\<lparr>list_id = ''l'', title = ''T'', routines = []\<rparr>"
  let ?a = "\<lparr>routine_id = ''n'', routine_name = ''A'', startTime = ''08:00:00'',
            durationSeconds = 1500, endTime = ''08:25:00''\<rparr>"
  let ?l = "\<lparr>list_id = ''l'', title = ''T'', routines = [?a]\<rparr>"
  have n: "js_trim ''A'' \<noteq> []" by code_simp
  have p: "parseDurationToSeconds ''25'' = Seconds 1500" by code_simp
  have d: "(0::int) < 1500" by simp
  have t1: "parseTimeToDate ''08:00'' = Some 28800" by code_simp
  have t2: "parseTimeToDate ''08:25:00'' = Some 30300" by code_simp
  have f1: "formatTimeFromDate 30300 = ''08:25:00''" by code_simp
  have f2: "formatTimeFromDate 31800 = ''08:50:00''" by code_simp
  have d1: "distinct (map list_id [?e])" and i1: "?e \<in> set [?e]" by simp_all
  have d2: "distinct (map list_id [?l])" and i2: "?l \<in> set [?l]" by simp_all
  have "handleSubmitNewRoutine ''n'' [?e] ?e ''A'' ''25'' ''08:00''
      = Applied [\<lparr>list_id = ''l'', title = ''T'', routines = [?a]\<rparr>]"
    using add_routine_start_time [OF d1 i1 n p d, of "''08:00''" 28800 "''n''"] t1 f1
    by (simp add: addSecondsToDate_def)
  moreover have "handleSubmitNewRoutine ''m'' [?l] ?l ''B'' ''25'' ''23:00''
      = Applied [\<lparr>list_id = ''l'', title = ''T'', routines =
          [?a, \<lparr>routine_id = ''m'', routine_name = ''B'', startTime = ''08:25:00'',
            durationSeconds = 1500, endTime = ''08:50:00''\<rparr>]\<rparr>]"
    using add_routine_start_time [OF d2 i2 _ p d, of "''B''" "''23:00''" 30300 "''m''"] t2 f2
    by (simp add: addSecondsToDate_def js_trim_def is_js_space_def)
  ultimately show ?thesis using n p t1 t2 by simp
qed

text \<open>
  Claim C10. When a routine is added to an empty list and the caller passes no start time
  (the argument is absent or the empty string), the new routine starts at \<^verbatim>\<open>08:00:00\<close>, that
  is 28800 seconds after midnight, and ends at that time plus its duration.
\<close>
theorem add_first_routine_default_start:
  assumes "distinct (map list_id prevLists)" and "list \<in> set prevLists"
    and "routines list = []" and "startTimeStr = None \<or> startTimeStr = Some []"
  shows "handleAddRoutineToList newId prevLists (list_id list) name d startTimeStr
     = Some (map (\<lambda>x. if list_id x = list_id list
                        then list\<lparr>routines :=
                          [\<lparr>routine_id = newId, routine_name = name, startTime = ''08:00:00'',
                            durationSeconds = d,
                            endTime = formatTimeFromDate (addSecondsToDate 28800 d)\<rparr>]\<rparr>
                        else x) prevLists)
     \<and> parseTimeToDate ''08:00:00'' = Some 28800
     \<and> parseTimeToDate (formatTimeFromDate (addSecondsToDate 28800 d)) = Some ((28800 + d) mod 86400)"
proof -
  have "addRoutineToList newId name d startTimeStr list
      = Some (list\<lparr>routines :=
                          [\<lparr>routine_id = newId, routine_name = name, startTime = ''08:00:00'',
                            durationSeconds = d,
                            endTime = formatTimeFromDate (addSecondsToDate 28800 d)\<rparr>]\<rparr>)"
    using assms(3,4) by (auto simp: addRoutineToList_def eight_o_clock)
  from handleAddRoutineToList_one [OF assms(1,2) this] show ?thesis
    by (simp add: eight_o_clock parse_format_time addSecondsToDate_def)
qed

theorem add_first_routine_default_start_witness:
  "distinct (map list_id [\<lparr>list_id = ''l'', title = ''T'', routines = []\<rparr>])
   \<and> routines \<lparr>list_id = ''l'', title = ''T'', routines = []\<rparr> = []
   \<and> handleAddRoutineToList ''n'' [\<lparr>list_id = ''l'', title = ''T'', routines = []\<rparr>] ''l'' ''A''
        1500 None
      = Some [\<lparr>list_id = ''l'', title = ''T'', routines =
          [\<lparr>routine_id = ''n'', routine_name = ''A'', startTime = ''08:00:00'',
            durationSeconds = 1500, endTime = ''08:25:00''\<rparr>]\<rparr>]"
proof -
  let ?e = "\<lparr>list_id = ''l'', title = ''T'', routines = []\<rparr>"
  have f1: "formatTimeFromDate 30300 = ''08:25:00''" by code_simp
  have d1: "distinct (map list_id [?e])" and i1: "?e \<in> set [?e]" and r: "routines ?e = []"
    by simp_all
  have "(None :: string option) = None \<or> (None :: string option) = Some []" by simp
  from add_first_routine_default_start [OF d1 i1 r this, of "''n''" "''A''" 1500] f1
  show ?thesis by (simp add: addSecondsToDate_def)
qed

section \<open>Properties of the timer tick\<close>

text \<open>The guard for a list that is no longer in the collection: the timer stops after the
  routine-complete sound. The program has no operation that removes a list.\<close>

lemma tick_list_missing:
  "find (\<lambda>l. list_id l = listId prev) ls = None \<Longrightarrow> timeLeftInSeconds prev \<le> 1 \<Longrightarrow>
     tick ls (Some prev) = (None, [RoutineDone (routineName prev)])"
  by (simp add: tick_def)

text \<open>
  Claim C3. One tick of a running timer whose list is in the collection:
  \<^item> with more than one second remaining, the timer keeps its routine and has one second
    less, and nothing is emitted;
  \<^item> with one second (or less) remaining, a routine-complete sound carrying the name of
    the timer's routine is emitted; if the list has a routine at the next index, the timer
    moves to it with its full duration remaining and nothing else is emitted; otherwise
    one all-complete sound for the list follows and the timer becomes idle (\<open>None\<close>). No
    routine-complete sound is emitted for a routine that does not exist.
  The sounds are listed in the order in which the code asks for them.
\<close>
theorem tick_transitions:
  assumes "find (\<lambda>l. list_id l = listId prev) ls = Some currentList"
  shows "(1 < timeLeftInSeconds prev \<longrightarrow>
            tick ls (Some prev)
              = (Some (prev\<lparr>timeLeftInSeconds := timeLeftInSeconds prev - 1\<rparr>), [])) \<and>
         (timeLeftInSeconds prev \<le> 1
            \<and> currentRoutineIndex prev + 1 < length (routines currentList) \<longrightarrow>
            tick ls (Some prev)
              = (Some \<lparr>listId = listId prev,
                        routineId = routine_id (routines currentList ! (currentRoutineIndex prev + 1)),
                        currentRoutineIndex = currentRoutineIndex prev + 1,
                        timeLeftInSeconds =
                          durationSeconds (routines currentList ! (currentRoutineIndex prev + 1)),
                        routineName =
                          routine_name (routines currentList ! (currentRoutineIndex prev + 1))\<rparr>,
                 [RoutineDone (routineName prev)])) \<and>
         (timeLeftInSeconds prev \<le> 1
            \<and> \<not> currentRoutineIndex prev + 1 < length (routines currentList) \<longrightarrow>
            tick ls (Some prev) = (None, [RoutineDone (routineName prev), AllDone (title currentList)]))"
  using assms by (simp add: tick_def Let_def)

theorem tick_transitions_witness:
  "find (\<lambda>l. list_id l = ''l'')
     [\<lparr>list_id = ''l'', title = ''T'', routines =
        [\<lparr>routine_id = ''a'', routine_name = ''A'', startTime = ''08:00:00'', durationSeconds = 1500,
           endTime = ''08:25:00''\<rparr>,
         \<lparr>routine_id = ''b'', routine_name = ''B'', startTime = ''08:25:00'', durationSeconds = 600,
           endTime = ''08:35:00''\<rparr>]\<rparr>]
     = Some \<lparr>list_id = ''l'', title = ''T'', routines =
        [\<lparr>routine_id = ''a'', routine_name = ''A'', startTime = ''08:00:00'', durationSeconds = 1500,
           endTime = ''08:25:00''\<rparr>,
         \<lparr>routine_id = ''b'', routine_name = ''B'', startTime = ''08:25:00'', durationSeconds = 600,
           endTime = ''08:35:00''\<rparr>]\<rparr>
   \<and> tick [\<lparr>list_id = ''l'', title = ''T'', routines =
        [\<lparr>routine_id = ''a'', routine_name = ''A'', startTime = ''08:00:00'', durationSeconds = 1500,
           endTime = ''08:25:00''\<rparr>,
         \<lparr>routine_id = ''b'', routine_name = ''B'', startTime = ''08:25:00'', durationSeconds = 600,
           endTime = ''08:35:00''\<rparr>]\<rparr>]
        (Some \<lparr>listId = ''l'', routineId = ''a'', currentRoutineIndex = 0, timeLeftInSeconds = 7,
               routineName = ''A''\<rparr>)
      = (Some \<lparr>listId = ''l'', routineId = ''a'', currentRoutineIndex = 0, timeLeftInSeconds = 6,
               routineName = ''A''\<rparr>, [])
   \<and> tick [\<lparr>list_id = ''l'', title = ''T'', routines =
        [\<lparr>routine_id = ''a'', routine_name = ''A'', startTime = ''08:00:00'', durationSeconds = 1500,
           endTime = ''08:25:00''\<rparr>,
         \<lparr>routine_id = ''b'', routine_name = ''B'', startTime = ''08:25:00'', durationSeconds = 600,
           endTime = ''08:35:00''\<rparr>]\<rparr>]
        (Some \<lparr>listId = ''l'', routineId = ''a'', currentRoutineIndex = 0, timeLeftInSeconds = 1,
               routineName = ''A''\<rparr>)
      = (Some \<lparr>listId = ''l'', routineId = ''b'', currentRoutineIndex = 1, timeLeftInSeconds = 600,
               routineName = ''B''\<rparr>, [RoutineDone ''A''])
   \<and> tick [\<lparr>list_id = ''l'', title = ''T'', routines =
        [\<lparr>routine_id = ''a'', routine_name = ''A'', startTime = ''08:00:00'', durationSeconds = 1500,
           endTime = ''08:25:00''\<rparr>,
         \<lparr>routine_id = ''b'', routine_name = ''B'', startTime = ''08:25:00'', durationSeconds = 600,
           endTime = ''08:35:00''\<rparr>]\<rparr>]
        (Some \<lparr>listId = ''l'', routineId = ''b'', currentRoutineIndex = 1, timeLeftInSeconds = 1,
               routineName = ''B''\<rparr>)
      = (None, [RoutineDone ''B'', AllDone ''T''])"
proof -
  let ?rs = "[\<lparr>routine_id = ''a'', routine_name = ''A'', startTime = ''08:00:00'', durationSeconds = 1500,
           endTime = ''08:25:00''\<rparr>,
         \<lparr>routine_id = ''b'', routine_name = ''B'', startTime = ''08:25:00'', durationSeconds = 600,
           endTime = ''08:35:00''\<rparr>]"
  let ?l = "\<lparr>list_id = ''l'', title = ''T'', routines = ?rs\<rparr>"
  let ?s = "\<lambda>r i n t. \<lparr>listId = ''l'', routineId = r, currentRoutineIndex = i, timeLeftInSeconds = t,
               routineName = n\<rparr>"
  have f: "find (\<lambda>l. list_id l = ''l'') [?l] = Some ?l" by simp
  have f1: "find (\<lambda>l. list_id l = listId (?s ''a'' 0 ''A'' 7)) [?l] = Some ?l"
    and f2: "find (\<lambda>l. list_id l = listId (?s ''a'' 0 ''A'' 1)) [?l] = Some ?l"
    and f3: "find (\<lambda>l. list_id l = listId (?s ''b'' 1 ''B'' 1)) [?l] = Some ?l"
    by simp_all
  show ?thesis
    using f tick_transitions [OF f1] tick_transitions [OF f2] tick_transitions [OF f3]
    by simp
qed

subsection \<open>A whole run\<close>

text \<open>Starting a list puts the timer on its first routine. From there the ticks complete the
  routines one after the other: each emits its routine-complete sound once, in order, and
  the run ends idle with a single all-complete sound.\<close>

lemma start_list:
  assumes "find (\<lambda>l. list_id l = list_id cl) ls = Some cl" and "routines cl \<noteq> []"
    and "map_option listId active \<noteq> Some (list_id cl)"
  shows "handleToggleStartStopList ls active (list_id cl) = (Some (timerAt cl 0), [])"
  using assms by (simp add: handleToggleStartStopList_def timerAt_def Let_def)

lemma ticks_add:
  "ticks (m + n) ls a =
     (case ticks m ls a of (a1, sounds1) \<Rightarrow>
        (case ticks n ls a1 of (a2, sounds2) \<Rightarrow> (a2, sounds1 @ sounds2)))"
  by (induction m arbitrary: a) (auto split: prod.splits)

lemma countdown:
  "int n < timeLeftInSeconds a \<Longrightarrow>
     ticks n ls (Some a) = (Some (a\<lparr>timeLeftInSeconds := timeLeftInSeconds a - int n\<rparr>), [])"
proof (induction n arbitrary: a)
  case 0
  then show ?case by simp
next
  case (Suc n)
  then have "1 < timeLeftInSeconds a" by simp
  then have t: "tick ls (Some a) = (Some (a\<lparr>timeLeftInSeconds := timeLeftInSeconds a - 1\<rparr>), [])"
    by (simp add: tick_def)
  have "int n < timeLeftInSeconds (a\<lparr>timeLeftInSeconds := timeLeftInSeconds a - 1\<rparr>)"
    using Suc.prems by simp
  from Suc.IH [OF this] t show ?case by simp
qed

lemma routine_completes:
  assumes "find (\<lambda>l. list_id l = list_id cl) ls = Some cl" and "i < length (routines cl)"
  shows "ticks (ticksNeeded (routines cl ! i)) ls (Some (timerAt cl i)) =
     (if Suc i < length (routines cl) then (Some (timerAt cl (Suc i)), [RoutineDone (routine_name (routines cl ! i))])
      else (None, [RoutineDone (routine_name (routines cl ! i)), AllDone (title cl)]))"
proof -
  let ?d = "durationSeconds (routines cl ! i)"
  define n where "n = ticksNeeded (routines cl ! i) - 1"
  have n: "ticksNeeded (routines cl ! i) = n + 1" by (simp add: n_def ticksNeeded_def)
  define a where "a = (if 1 \<le> ?d then (timerAt cl i)\<lparr>timeLeftInSeconds := 1\<rparr> else timerAt cl i)"
  have first: "ticks n ls (Some (timerAt cl i)) = (Some a, [])"
  proof (cases "1 \<le> ?d")
    case True
    then have "int n < timeLeftInSeconds (timerAt cl i)"
      by (simp add: n_def ticksNeeded_def timerAt_def)
    from countdown [OF this] True show ?thesis
      by (simp add: a_def n_def ticksNeeded_def timerAt_def)
  next
    case False
    then show ?thesis by (simp add: a_def n_def ticksNeeded_def)
  qed
  have le: "timeLeftInSeconds a \<le> 1" by (simp add: a_def timerAt_def)
  have same: "listId a = list_id cl" "currentRoutineIndex a = i"
    "routineName a = routine_name (routines cl ! i)"
    by (simp_all add: a_def timerAt_def)
  have last: "tick ls (Some a) =
     (if Suc i < length (routines cl) then (Some (timerAt cl (Suc i)), [RoutineDone (routine_name (routines cl ! i))])
      else (None, [RoutineDone (routine_name (routines cl ! i)), AllDone (title cl)]))"
    using assms(1) le same by (simp add: tick_def timerAt_def Let_def)
  show ?thesis
    by (subst n, subst ticks_add) (simp add: first last)
qed

lemma run_from:
  assumes "find (\<lambda>l. list_id l = list_id cl) ls = Some cl"
  shows "i < length (routines cl) \<Longrightarrow>
     ticks (sum_list (map ticksNeeded (drop i (routines cl)))) ls (Some (timerAt cl i)) =
       (None, map (\<lambda>r. RoutineDone (routine_name r)) (drop i (routines cl)) @ [AllDone (title cl)])"
proof (induction "length (routines cl) - i" arbitrary: i)
  case 0
  then show ?case by simp
next
  case (Suc k)
  have d: "drop i (routines cl) = routines cl ! i # drop (Suc i) (routines cl)"
    using Suc.prems by (simp add: Cons_nth_drop_Suc)
  show ?case
  proof (cases "Suc i < length (routines cl)")
    case True
    have k: "k = length (routines cl) - Suc i" using Suc.hyps(2) by simp
    from Suc.hyps(1) [OF k True] routine_completes [OF assms Suc.prems] True
    show ?thesis by (simp add: d ticks_add)
  next
    case False
    then have "drop (Suc i) (routines cl) = []" by simp
    with routine_completes [OF assms Suc.prems] False show ?thesis by (simp add: d)
  qed
qed

lemma run_whole_list:
  assumes "find (\<lambda>l. list_id l = list_id cl) ls = Some cl" and "routines cl \<noteq> []"
  shows "ticks (sum_list (map ticksNeeded (routines cl))) ls (Some (timerAt cl 0)) =
       (None, map (\<lambda>r. RoutineDone (routine_name r)) (routines cl) @ [AllDone (title cl)])"
  using run_from [OF assms(1), of 0] assms(2) by simp

section \<open>Properties of deleting a routine\<close>







section \<open>Properties of moving a list\<close>

lemma spliceStart_valid: "0 \<le> i \<Longrightarrow> nat i \<le> n \<Longrightarrow> spliceStart i n = nat i"
  by (simp add: spliceStart_def)

lemma remove_insert_mset:
  "k < length xs \<Longrightarrow>
     mset (take j (take k xs @ drop (Suc k) xs) @ [xs ! k] @ drop j (take k xs @ drop (Suc k) xs))
       = mset xs"
proof -
  assume k: "k < length xs"
  let ?new = "take k xs @ drop (Suc k) xs"
  have "mset (take j ?new @ [xs ! k] @ drop j ?new) = mset (take j ?new @ drop j ?new) + {#xs ! k#}"
    by simp
  also have "\<dots> = mset ?new + {#xs ! k#}" by (simp only: append_take_drop_id)
  also have "\<dots> = mset (take k xs @ xs ! k # drop (Suc k) xs)" by simp
  also have "\<dots> = mset xs" using k by (simp only: id_take_nth_drop [symmetric])
  finally show ?thesis .
qed

lemma handleMoveList_mset: "mset (fst (handleMoveList (ls, a) s t)) = mset ls"
proof (cases "spliceStart s (length ls) < length ls")
  case True
  then show ?thesis
    unfolding handleMoveList_def Let_def
    by (simp only: fst_conv if_True remove_insert_mset)
next
  case False
  then show ?thesis by (simp add: handleMoveList_def Let_def)
qed

lemma handleMoveList_valid:
  assumes "0 \<le> s" "nat s < length ls" "0 \<le> t" "nat t \<le> length ls"
  shows "fst (handleMoveList (ls, a) s t)
     = take (nat (if s < t then t - 1 else t)) (take (nat s) ls @ drop (Suc (nat s)) ls)
       @ [ls ! nat s]
       @ drop (nat (if s < t then t - 1 else t)) (take (nat s) ls @ drop (Suc (nat s)) ls)"
proof -
  have k: "spliceStart s (length ls) = nat s" using assms by (simp add: spliceStart_valid)
  let ?new = "take (nat s) ls @ drop (Suc (nat s)) ls"
  let ?a = "if s < t then t - 1 else t"
  have len: "length ?new = length ls - 1" using assms by simp
  have "0 \<le> ?a" "nat ?a \<le> length ?new" using assms len by auto
  then have j: "spliceStart ?a (length ?new) = nat ?a" by (rule spliceStart_valid)
  show ?thesis using assms(2) k j by (simp add: handleMoveList_def Let_def)
qed

text \<open>
  Claim C9. Moving a list reorders the collection only: the result holds the same lists
  (each with its routine sequence as it was), and the timer state is not changed. For a
  source index inside the collection and a target index between \<open>0\<close> and its length, the moved
  list ends up at index \<open>targetIndex - 1\<close> when the source index precedes the target index
  and at \<open>targetIndex\<close> otherwise, and the other lists keep their order.
\<close>
theorem move_list_reorders_only:
  "mset (fst (handleMoveList (ls, active) sourceIndex targetIndex)) = mset ls \<and>
   snd (handleMoveList (ls, active) sourceIndex targetIndex) = active \<and>
   (0 \<le> sourceIndex \<and> nat sourceIndex < length ls \<and> 0 \<le> targetIndex \<and> nat targetIndex \<le> length ls
      \<longrightarrow>
      (\<exists>a. a = nat (if sourceIndex < targetIndex then targetIndex - 1 else targetIndex)
         \<and> length (fst (handleMoveList (ls, active) sourceIndex targetIndex)) = length ls
         \<and> fst (handleMoveList (ls, active) sourceIndex targetIndex) ! a = ls ! nat sourceIndex
         \<and> take a (fst (handleMoveList (ls, active) sourceIndex targetIndex))
             @ drop (Suc a) (fst (handleMoveList (ls, active) sourceIndex targetIndex))
           = take (nat sourceIndex) ls @ drop (Suc (nat sourceIndex)) ls))"
proof (intro conjI impI)
  show "mset (fst (handleMoveList (ls, active) sourceIndex targetIndex)) = mset ls"
    by (rule handleMoveList_mset)
  show "snd (handleMoveList (ls, active) sourceIndex targetIndex) = active"
    by (simp add: handleMoveList_def Let_def)
next
  assume v: "0 \<le> sourceIndex \<and> nat sourceIndex < length ls \<and> 0 \<le> targetIndex
      \<and> nat targetIndex \<le> length ls"
  define a where "a = nat (if sourceIndex < targetIndex then targetIndex - 1 else targetIndex)"
  define new where "new = take (nat sourceIndex) ls @ drop (Suc (nat sourceIndex)) ls"
  define res where "res = fst (handleMoveList (ls, active) sourceIndex targetIndex)"
  have res: "res = take a new @ [ls ! nat sourceIndex] @ drop a new"
    using v handleMoveList_valid [of sourceIndex ls targetIndex active]
    by (simp add: a_def new_def res_def)
  have len: "length new = length ls - 1" using v by (simp add: new_def)
  have a: "a \<le> length new" using v len by (auto simp: a_def)
  have "length res = Suc (length new)" using a by (simp add: res)
  then have l: "length res = length ls" using len v by linarith
  have n: "res ! a = ls ! nat sourceIndex" using res a by (simp add: nth_append)
  have "take a res = take a new" using res a by simp
  moreover have "drop (Suc a) res = drop a new" using res a by simp
  ultimately have "take a res @ drop (Suc a) res = new" by simp
  then show "\<exists>a. a = nat (if sourceIndex < targetIndex then targetIndex - 1 else targetIndex)
         \<and> length (fst (handleMoveList (ls, active) sourceIndex targetIndex)) = length ls
         \<and> fst (handleMoveList (ls, active) sourceIndex targetIndex) ! a = ls ! nat sourceIndex
         \<and> take a (fst (handleMoveList (ls, active) sourceIndex targetIndex))
             @ drop (Suc a) (fst (handleMoveList (ls, active) sourceIndex targetIndex))
           = take (nat sourceIndex) ls @ drop (Suc (nat sourceIndex)) ls"
    using l n by (simp add: a_def new_def res_def)
qed

theorem move_list_reorders_only_witness:
  "(0::int) \<le> 0 \<and> (0::int) \<le> 2
   \<and> nat 0 < length [\<lparr>list_id = ''a'', title = ''A'', routines = []\<rparr>,
         \<lparr>list_id = ''b'', title = ''B'', routines = []\<rparr>,
         \<lparr>list_id = ''c'', title = ''C'', routines = []\<rparr>]
   \<and> nat 2 \<le> length [\<lparr>list_id = ''a'', title = ''A'', routines = []\<rparr>,
         \<lparr>list_id = ''b'', title = ''B'', routines = []\<rparr>,
         \<lparr>list_id = ''c'', title = ''C'', routines = []\<rparr>]
   \<and> handleMoveList ([\<lparr>list_id = ''a'', title = ''A'', routines = []\<rparr>,
         \<lparr>list_id = ''b'', title = ''B'', routines = []\<rparr>,
         \<lparr>list_id = ''c'', title = ''C'', routines = []\<rparr>], None) 0 2
      = ([\<lparr>list_id = ''b'', title = ''B'', routines = []\<rparr>,
          \<lparr>list_id = ''a'', title = ''A'', routines = []\<rparr>,
          \<lparr>list_id = ''c'', title = ''C'', routines = []\<rparr>], None)
   \<and> fst (handleMoveList ([\<lparr>list_id = ''a'', title = ''A'', routines = []\<rparr>,
         \<lparr>list_id = ''b'', title = ''B'', routines = []\<rparr>,
         \<lparr>list_id = ''c'', title = ''C'', routines = []\<rparr>], None) 0 2) ! 1
      = \<lparr>list_id = ''a'', title = ''A'', routines = []\<rparr>"
proof -
  let ?a = "\<lparr>list_id = ''a'', title = ''A'', routines = []\<rparr>"
  let ?b = "\<lparr>list_id = ''b'', title = ''B'', routines = []\<rparr>"
  let ?c = "\<lparr>list_id = ''c'', title = ''C'', routines = []\<rparr>"
  have v: "(0::int) \<le> 0 \<and> nat 0 < length [?a, ?b, ?c] \<and> (0::int) \<le> 2 \<and> nat 2 \<le> length [?a, ?b, ?c]"
    by simp
  have e: "handleMoveList ([?a, ?b, ?c], None) 0 2 = ([?b, ?a, ?c], None)"
    by (simp add: handleMoveList_def spliceStart_def)
  from move_list_reorders_only [of "[?a, ?b, ?c]" None 0 2] v
  have "fst (handleMoveList ([?a, ?b, ?c], None) 0 2) ! nat (if (0::int) < 2 then 2 - 1 else 2)
      = [?a, ?b, ?c] ! nat 0"
    by blast
  then show ?thesis using v e by simp
qed

end
